theory Spec2Isabelle
  imports Main "HOL-Library.Sublist" "HOL-Library.Char_ord" "HOL-Library.List_Lexorder"
begin

section \<open>Byte strings\<close>

text \<open>
  A Go \<^verbatim>\<open>string\<close>, a \<^verbatim>\<open>[]byte\<close> and the unread contents of a \<^verbatim>\<open>bytes.Buffer\<close> are all
  sequences of bytes. They are modelled as \<^typ>\<open>string\<close> (a list of 8-bit characters);
  \<open>of_char\<close> reads a byte as a number.
\<close>

definition CR :: char where
  "CR = CHR 0x0D"

definition LF :: char where
  "LF = CHR 0x0A"

definition CRLF :: string where
  "CRLF = [CR, LF]"

text \<open>\<^verbatim>\<open>fmt.Sprintf("%d", n)\<close>: the decimal digits of an integer, with a sign when negative.\<close>

fun natDigits :: "nat \<Rightarrow> string" where
  "natDigits n =
     (if n < 10 then [''0123456789'' ! n]
      else natDigits (n div 10) @ [''0123456789'' ! (n mod 10)])"

definition fmtInt :: "int \<Rightarrow> string" where
  "fmtInt i = (if i < 0 then CHR ''-'' # natDigits (nat (- i)) else natDigits (nat i))"

section \<open>Library encoders used by the mailer\<close>

subsection \<open>The boundary token of \<^verbatim>\<open>multipart.NewWriter\<close>\<close>

text \<open>
  \<^verbatim>\<open>multipart.NewWriter\<close> reads 30 bytes from the random source and formats them
  with \<^verbatim>\<open>%x\<close>: two lower-case hexadecimal digits per byte. The bytes read are a
  parameter of the model.
\<close>

definition lowerhex :: string where
  "lowerhex = ''0123456789abcdef''"

definition hexByte :: "char \<Rightarrow> string" where
  "hexByte c = [lowerhex ! ((of_char c :: nat) div 16), lowerhex ! ((of_char c :: nat) mod 16)]"

definition randomBoundary :: "string \<Rightarrow> string" where
  "randomBoundary rnd = concat (map hexByte rnd)"

subsection \<open>Standard base64 (\<^verbatim>\<open>base64.StdEncoding\<close>)\<close>

text \<open>
  \<^verbatim>\<open>base64.NewEncoder(base64.StdEncoding, part)\<close> followed by \<^verbatim>\<open>Close\<close> writes the standard
  padded encoding of everything written to it, as one unbroken run of characters:
  the stream encoder inserts no line breaks. Each group of three bytes gives four
  characters of the standard alphabet, six bits each; a last group of one or two
  bytes gives two or three characters and is padded with \<^verbatim>\<open>=\<close>.
\<close>

definition encodeStd :: string where
  "encodeStd = ''ABCDEFGHIJKLMNOPQRSTUVWXYZabcdefghijklmnopqrstuvwxyz0123456789+/''"

definition b64char :: "nat \<Rightarrow> char" where
  "b64char i = encodeStd ! (i mod 64)"

fun base64Encode :: "string \<Rightarrow> string" where
  "base64Encode (a # b # c # rest) =
     (let A = of_char a :: nat; B = of_char b :: nat; C = of_char c :: nat
      in b64char (A div 4) # b64char (A mod 4 * 16 + B div 16)
         # b64char (B mod 16 * 4 + C div 64) # b64char (C mod 64) # base64Encode rest)"
| "base64Encode [a, b] =
     (let A = of_char a :: nat; B = of_char b :: nat
      in [b64char (A div 4), b64char (A mod 4 * 16 + B div 16), b64char (B mod 16 * 4), CHR ''=''])"
| "base64Encode [a] =
     (let A = of_char a :: nat
      in [b64char (A div 4), b64char (A mod 4 * 16), CHR ''='', CHR ''=''])"
| "base64Encode [] = []"

subsection \<open>The quoted-printable writer (\<^verbatim>\<open>quotedprintable.Writer\<close>, text mode)\<close>

text \<open>
  The writer keeps the current output line in a buffer (\<^verbatim>\<open>w.line[:w.i]\<close>) and a flag
  \<^verbatim>\<open>w.cr\<close> remembering that the last line break came from a carriage return. A line is
  handed to the underlying writer when a line break is inserted and when the writer
  is closed. The state of the model is the buffered line, the flag, and everything
  flushed so far.
\<close>

record qpWriter =
  qpOut :: string
  qpLine :: string
  qpCr :: bool

definition upperhex :: string where
  "upperhex = ''0123456789ABCDEF''"

definition lineMaxLen :: nat where
  "lineMaxLen = 76"

definition isWhitespace :: "char \<Rightarrow> bool" where
  "isWhitespace b \<longleftrightarrow> b = CHR '' '' \<or> b = CHR 0x09"

definition qpFlush :: "qpWriter \<Rightarrow> qpWriter" where
  "qpFlush w = w\<lparr>qpOut := qpOut w @ qpLine w, qpLine := []\<rparr>"

definition insertCRLF :: "qpWriter \<Rightarrow> qpWriter" where
  "insertCRLF w = qpFlush (w\<lparr>qpLine := qpLine w @ CRLF\<rparr>)"

definition insertSoftLineBreak :: "qpWriter \<Rightarrow> qpWriter" where
  "insertSoftLineBreak w = insertCRLF (w\<lparr>qpLine := qpLine w @ ''=''\<rparr>)"

definition qpEncodeByte :: "char \<Rightarrow> qpWriter \<Rightarrow> qpWriter" where
  "qpEncodeByte b w =
     (let w1 = (if lineMaxLen - 1 - length (qpLine w) < 3 then insertSoftLineBreak w else w)
      in w1\<lparr>qpLine := qpLine w1 @
            [CHR ''='', upperhex ! ((of_char b :: nat) div 16), upperhex ! ((of_char b :: nat) mod 16)]\<rparr>)"

definition checkLastByte :: "qpWriter \<Rightarrow> qpWriter" where
  "checkLastByte w =
     (if qpLine w = [] then w
      else let b = last (qpLine w)
           in if isWhitespace b then qpEncodeByte b (w\<lparr>qpLine := butlast (qpLine w)\<rparr>) else w)"

definition qpWriteByte :: "char \<Rightarrow> qpWriter \<Rightarrow> qpWriter" where
  "qpWriteByte b w =
     (if b = LF \<or> b = CR then
        (if qpCr w \<and> b = LF then w\<lparr>qpCr := False\<rparr>
         else insertCRLF (checkLastByte (if b = CR then w\<lparr>qpCr := True\<rparr> else w)))
      else
        (let w1 = (if length (qpLine w) = lineMaxLen - 1 then insertSoftLineBreak w else w)
         in w1\<lparr>qpLine := qpLine w1 @ [b], qpCr := False\<rparr>))"

text \<open>
  \<^verbatim>\<open>Write\<close> passes printable bytes other than \<^verbatim>\<open>=\<close>, blanks and line-break bytes to
  \<^verbatim>\<open>write\<close> and every other byte to \<^verbatim>\<open>encode\<close>, in input order.
\<close>

definition qpSimple :: "char \<Rightarrow> bool" where
  "qpSimple b \<longleftrightarrow>
     (CHR ''!'' \<le> b \<and> b \<le> CHR ''~'' \<and> b \<noteq> CHR ''='') \<or> isWhitespace b \<or> b = LF \<or> b = CR"

fun qpWrite :: "string \<Rightarrow> qpWriter \<Rightarrow> qpWriter" where
  "qpWrite [] w = w"
| "qpWrite (b # bs) w = qpWrite bs (if qpSimple b then qpWriteByte b w else qpEncodeByte b w)"

definition qpClose :: "qpWriter \<Rightarrow> qpWriter" where
  "qpClose w = qpFlush (checkLastByte w)"

definition qpNewWriter :: qpWriter where
  "qpNewWriter = \<lparr>qpOut = [], qpLine = [], qpCr = False\<rparr>"

text \<open>Everything a fresh writer hands to the part between its creation and its \<^verbatim>\<open>Close\<close>.\<close>

definition qpEncode :: "string \<Rightarrow> string" where
  "qpEncode body = qpOut (qpClose (qpWrite body qpNewWriter))"

section \<open>Data model\<close>

text \<open>The structs of \<^verbatim>\<open>main.go\<close>. An \<open>Attachment\<close> holds a pointer to its buffer
  (the field \<^verbatim>\<open>file\<close>, here \<open>fileBuf\<close>): the address of a buffer, or \<open>None\<close> for \<^verbatim>\<open>nil\<close>.\<close>

record Attachment =
  fileName :: string
  mimeType :: string
  fileBuf :: "nat option"

record EmailConfig =
  emailHost :: string
  emailPort :: int
  emailUsername :: string
  emailPassword :: string

record DBConfig =
  dbHost :: string
  dbPort :: int
  dbUsername :: string
  dbPassword :: string

record TableAttachmentConfig =
  taTable :: string
  taExcel :: string

record PostConfig =
  postFrom :: string
  postTo :: "string list"
  postSubject :: string
  postBody :: string
  postAttachment :: "TableAttachmentConfig list"

record Config =
  cfgEmail :: EmailConfig
  cfgDB :: DBConfig
  cfgPost :: "PostConfig list"
  cfgTime :: string

text \<open>Sender and recipient are strings that hold an e-mail address.\<close>

type_synonym address = string

text \<open>A Go \<^verbatim>\<open>error\<close> value, with its message.\<close>

datatype error = Err string

text \<open>
  How a call ended: it returned \<^verbatim>\<open>nil\<close>, it returned an error, or it panicked
  (a read through a \<^verbatim>\<open>nil\<close> pointer or one that names no buffer).
\<close>

datatype status = Done | Failed error | Panicked

section \<open>The world outside the program\<close>

text \<open>
  The result set of one \<^verbatim>\<open>db.Query\<close>: what \<^verbatim>\<open>rows.Columns()\<close> returns, the outcome of
  \<^verbatim>\<open>rows.Scan\<close> for each row that \<^verbatim>\<open>rows.Next()\<close> delivers, and what \<^verbatim>\<open>rows.Err()\<close>
  reports once \<^verbatim>\<open>Next\<close> has returned false. A scan that succeeds leaves one
  \<^verbatim>\<open>sql.RawBytes\<close> in each element of \<^verbatim>\<open>values\<close>: \<open>None\<close> is a \<^verbatim>\<open>nil\<close> slice, \<open>Some v\<close> a
  slice that is not \<^verbatim>\<open>nil\<close> and holds the bytes \<open>v\<close>. The test \<^verbatim>\<open>value == nil\<close> of line 317
  sees nothing else of the cell. \<^verbatim>\<open>database/sql\<close> leaves \<^verbatim>\<open>nil\<close> for every SQL NULL; it
  may leave \<^verbatim>\<open>nil\<close> for an empty text as well, so \<open>None\<close> does not say that the cell
  was NULL in the database.
\<close>

record sqlRows =
  rowsColumns :: "error + string list"
  rowsScans :: "(error + string option list) list"
  rowsErr :: "error option"

text \<open>
  A worksheet: the text of each cell that has been set, by column and row (both
  counted from 1, as \<^verbatim>\<open>excelize.CoordinatesToCellName\<close> takes them).
\<close>

type_synonym sheet = "nat \<times> nat \<Rightarrow> string option"

datatype smtpStage = Dial | NewClient | Auth | Mail | Rcpt | Data | DataWrite | DataClose

text \<open>
  Everything the program asks of its surroundings: the database driver, the
  spreadsheet library's fallible calls, the random source, the iteration order of a
  Go map, the mail server, the configuration file and the scheduler's parser.
  \<open>randRead n\<close> and \<open>mapOrder n\<close> answer the \<open>n\<close>-th message that is prepared.
  \<open>cutText v\<close> is what the spreadsheet library keeps of a text \<open>v\<close> that is longer than
  a cell may hold.
\<close>

record env =
  sqlOpen :: "string \<Rightarrow> error option"
  dbPing :: "string \<Rightarrow> error option"
  dbQuery :: "string \<Rightarrow> error + sqlRows"
  newSheet :: "error option"
  cutText :: "string \<Rightarrow> string"
  fileWrite :: "sheet \<Rightarrow> error + string"
  fileClose :: "error option"
  randRead :: "nat \<Rightarrow> string"
  mapOrder :: "nat \<Rightarrow> string list"
  smtp :: "string \<Rightarrow> string \<Rightarrow> smtpStage \<Rightarrow> error option"
  readConfig :: "string \<Rightarrow> error + Config"
  cronAddFunc :: "string \<Rightarrow> error option"

text \<open>
  What the program does to its surroundings, in order: a query issued to the
  database (\<^verbatim>\<open>db.Query\<close>), the start of the preparation of a message for a recipient
  (line 192 and the new buffer and multipart writer of lines 193 and 194), and a
  message written as the DATA payload of an SMTP exchange (line 257: server address,
  sender, recipient, bytes).
\<close>

datatype event =
    EvQuery string
  | EvPrepare string
  | EvData string string string string

text \<open>
  The mutable state: the \<^verbatim>\<open>bytes.Buffer\<close> objects by address, each with its unread
  bytes; the next free address; the number of messages prepared so far; and the
  events so far.
\<close>

record world =
  heap :: "nat \<Rightarrow> string option"
  nextAddr :: nat
  prepared :: nat
  events :: "event list"

section \<open>The MIME message builder\<close>

subsection \<open>\<^verbatim>\<open>multipart.Writer\<close>\<close>

text \<open>
  The writer and the buffer \<^verbatim>\<open>buf\<close> it writes to. \<^verbatim>\<open>CreatePart\<close> writes the delimiter
  line (preceded by a line break unless it is the first part), the part's headers
  sorted by key, and a blank line. \<^verbatim>\<open>Close\<close> writes the closing delimiter. Writes to a
  \<^verbatim>\<open>bytes.Buffer\<close> do not fail.
\<close>

record mpWriter =
  mpBuf :: string
  mpBoundary :: string
  mpLastpart :: bool

definition NewWriter :: "string \<Rightarrow> mpWriter" where
  "NewWriter rnd = \<lparr>mpBuf = [], mpBoundary = randomBoundary rnd, mpLastpart = False\<rparr>"

definition bufWrite :: "string \<Rightarrow> mpWriter \<Rightarrow> mpWriter" where
  "bufWrite s w = w\<lparr>mpBuf := mpBuf w @ s\<rparr>"

definition headerLine :: "string \<times> string \<Rightarrow> string" where
  "headerLine kv = fst kv @ '': '' @ snd kv @ CRLF"

definition CreatePart :: "(string \<times> string) list \<Rightarrow> mpWriter \<Rightarrow> mpWriter" where
  "CreatePart header w =
     (bufWrite
        ((if mpLastpart w then CRLF @ ''--'' @ mpBoundary w @ CRLF
          else ''--'' @ mpBoundary w @ CRLF)
         @ concat (map headerLine (sort_key fst header)) @ CRLF) w)
     \<lparr>mpLastpart := True\<rparr>"

definition mpClose :: "mpWriter \<Rightarrow> mpWriter" where
  "mpClose w = (bufWrite (CRLF @ ''--'' @ mpBoundary w @ ''--'' @ CRLF) w)\<lparr>mpLastpart := False\<rparr>"

subsection \<open>\<^verbatim>\<open>writeBody\<close> and \<^verbatim>\<open>writeAttachment\<close>\<close>

text \<open>
  \<^verbatim>\<open>writeBody\<close>: a part with two headers, then the body through a quoted-printable
  writer that is closed when the function returns. The error returns of the source
  cannot be taken, since no write to the buffer fails.
\<close>

definition writeBody :: "mpWriter \<Rightarrow> string \<Rightarrow> status \<times> mpWriter" where
  "writeBody writer body =
     (let part = CreatePart
            [(''Content-Type'', ''text/plain; charset=utf-8''),
             (''Content-Transfer-Encoding'', ''quoted-printable'')] writer
      in (Done, bufWrite (qpEncode body) part))"

text \<open>
  \<^verbatim>\<open>writeAttachment\<close>: a part with three headers, then \<^verbatim>\<open>io.Copy(encoder, attachment)\<close>,
  which reads the buffer behind the pointer to its end, and the encoder's \<^verbatim>\<open>Close\<close>.
  Reading a \<^verbatim>\<open>bytes.Buffer\<close> consumes it: afterwards the buffer has no unread bytes.
\<close>

definition writeAttachment ::
  "mpWriter \<Rightarrow> nat option \<Rightarrow> string \<Rightarrow> string \<Rightarrow> (nat \<Rightarrow> string option)
     \<Rightarrow> status \<times> mpWriter \<times> (nat \<Rightarrow> string option)" where
  "writeAttachment writer attachment fName mType h =
     (let part = CreatePart
            [(''Content-Type'', mType),
             (''Content-Transfer-Encoding'', ''base64''),
             (''Content-Disposition'', ''attachment; filename=\"'' @ fName @ ''\"'')] writer
      in case attachment of
           None \<Rightarrow> (Panicked, part, h)
         | Some p \<Rightarrow>
             (case h p of
                None \<Rightarrow> (Panicked, part, h)
              | Some payload \<Rightarrow> (Done, bufWrite (base64Encode payload) part, h(p \<mapsto> []))))"

text \<open>The loop over the attachments in \<^verbatim>\<open>SendEmail\<close>.\<close>

fun writeAttachments ::
  "Attachment list \<Rightarrow> mpWriter \<Rightarrow> (nat \<Rightarrow> string option)
     \<Rightarrow> status \<times> mpWriter \<times> (nat \<Rightarrow> string option)" where
  "writeAttachments [] writer h = (Done, writer, h)"
| "writeAttachments (a # as) writer h =
     (case writeAttachment writer (fileBuf a) (fileName a) (mimeType a) h of
        (Done, writer', h') \<Rightarrow> writeAttachments as writer' h'
      | (st, writer', h') \<Rightarrow> (st, writer', h'))"

subsection \<open>\<^verbatim>\<open>SendEmail\<close>\<close>

text \<open>
  The top-level headers are a Go map; the loop over it visits every key once, in an
  order the runtime chooses. \<open>ks\<close> is that order.
\<close>

definition topHeaders :: "string \<Rightarrow> string \<Rightarrow> string \<Rightarrow> string \<Rightarrow> (string \<times> string) list" where
  "topHeaders from to subject boundary =
     [(''From'', from), (''To'', to), (''Subject'', subject), (''MIME-Version'', ''1.0''),
      (''Content-Type'', ''multipart/mixed; boundary='' @ boundary)]"

definition rangeHeaders :: "string list \<Rightarrow> (string \<times> string) list \<Rightarrow> string" where
  "rangeHeaders ks headers =
     concat (map (\<lambda>k. case map_of headers k of None \<Rightarrow> [] | Some v \<Rightarrow> headerLine (k, v)) ks)"

text \<open>
  Lines 193 to 219: the buffer once the headers, the body and the attachments are
  written. The writer's \<^verbatim>\<open>Close\<close> is deferred to the return of \<^verbatim>\<open>SendEmail\<close>.
\<close>

definition buildMessage ::
  "string \<Rightarrow> string list \<Rightarrow> string \<Rightarrow> string \<Rightarrow> string \<Rightarrow> string \<Rightarrow> Attachment list
     \<Rightarrow> (nat \<Rightarrow> string option) \<Rightarrow> status \<times> mpWriter \<times> (nat \<Rightarrow> string option)" where
  "buildMessage rnd ks from to subject body attachments h =
     (let writer = NewWriter rnd;
          headers = topHeaders from to subject (mpBoundary writer);
          writer1 = bufWrite CRLF (bufWrite (rangeHeaders ks headers) writer)
      in case writeBody writer1 body of
           (Done, writer2) \<Rightarrow> writeAttachments attachments writer2 h
         | (st, writer2) \<Rightarrow> (st, writer2, h))"

fun firstError :: "error option list \<Rightarrow> error option" where
  "firstError [] = None"
| "firstError (None # rs) = firstError rs"
| "firstError (Some e # rs) = Some e"

text \<open>
  \<^verbatim>\<open>SendEmail\<close>: build the message, then connect, greet, authenticate, name sender and
  recipient, open the DATA stage, write the buffer as it stands, and close the DATA
  stage. The deferred \<^verbatim>\<open>writer.Close()\<close> runs when the function returns, after the
  buffer has been written to the server, and changes only the local buffer.
\<close>

definition SendEmail ::
  "env \<Rightarrow> string \<Rightarrow> string \<Rightarrow> string \<Rightarrow> string \<Rightarrow> address \<Rightarrow> address \<Rightarrow> string \<Rightarrow> string
     \<Rightarrow> Attachment list \<Rightarrow> world \<Rightarrow> status \<times> world" where
  "SendEmail E smtpServer port username password from to subject body attachments w =
     (let w1 = w\<lparr>events := events w @ [EvPrepare to], prepared := prepared w + 1\<rparr>
      in case buildMessage (randRead E (prepared w)) (mapOrder E (prepared w))
                from to subject body attachments (heap w1) of
           (Done, writer, h) \<Rightarrow>
             (let w2 = w1\<lparr>heap := h\<rparr>;
                  serverAddress = smtpServer @ '':'' @ port
              in case firstError (map (smtp E serverAddress to)
                                    [Dial, NewClient, Auth, Mail, Rcpt, Data]) of
                   Some e \<Rightarrow> (Failed e, w2)
                 | None \<Rightarrow>
                     (let w3 = w2\<lparr>events := events w2 @ [EvData serverAddress from to (mpBuf writer)]\<rparr>
                      in case smtp E serverAddress to DataWrite of
                           Some e \<Rightarrow> (Failed e, w3)
                         | None \<Rightarrow>
                             (case smtp E serverAddress to DataClose of
                                Some e \<Rightarrow> (Failed e, w3)
                              | None \<Rightarrow> (Done, w3))))
         | (st, writer, h) \<Rightarrow> (st, w1\<lparr>heap := h\<rparr>))"

section \<open>The table exporter\<close>

text \<open>
  The limits of a worksheet, as the spreadsheet library declares them: the number of
  columns, the number of rows, and the number of characters of one cell.
\<close>

definition MaxColumns :: nat where
  "MaxColumns = 16384"

definition TotalRows :: nat where
  "TotalRows = 1048576"

definition TotalCellChars :: nat where
  "TotalCellChars = 32767"

text \<open>
  The text that a cell holds after \<^verbatim>\<open>SetCellValue\<close> with the text \<open>v\<close>. The library keeps
  at most \<open>TotalCellChars\<close> characters. A text of at most that many bytes has no more
  characters than that and is kept whole; of a longer text the library keeps what
  \<open>cutText\<close> says.
\<close>

definition storedText :: "env \<Rightarrow> string \<Rightarrow> string" where
  "storedText E v = (if length v \<le> TotalCellChars then v else cutText E v)"

text \<open>
  \<^verbatim>\<open>cell, _ := excelize.CoordinatesToCellName(col, row); file.SetCellValue(sheetName, cell, v)\<close>
  (lines 298 and 299, 316 to 320). Beyond column \<open>MaxColumns\<close> or row \<open>TotalRows\<close> the
  library refuses the cell: the first call returns an error and no usable name, or
  the second call returns an error, and no cell is set. The source discards both
  errors, so the loop goes on as if the cell had been set.
\<close>

definition SetCellValue :: "env \<Rightarrow> nat \<Rightarrow> nat \<Rightarrow> string \<Rightarrow> sheet \<Rightarrow> sheet" where
  "SetCellValue E col row v f =
     (if MaxColumns < col \<or> TotalRows < row then f else f((col, row) \<mapsto> storedText E v))"

text \<open>
  \<^verbatim>\<open>for i, colName := range columns\<close> (lines 297 to 300): the header row, \<open>i\<close> being the
  index reached. The names are the column names of a result set: identifiers of the
  database, far shorter than \<open>TotalCellChars\<close> and far fewer than \<open>MaxColumns\<close>, so that
  each of these calls sets its cell to the whole name.
\<close>

fun setHeader :: "nat \<Rightarrow> nat \<Rightarrow> string list \<Rightarrow> sheet \<Rightarrow> sheet" where
  "setHeader i row [] f = f"
| "setHeader i row (colName # names) f = setHeader (i + 1) row names (f((i + 1, row) \<mapsto> colName))"

text \<open>
  Lines 317 to 321: a cell that is \<^verbatim>\<open>nil\<close> is written as the text \<^verbatim>\<open>NULL\<close>, any other cell
  as its bytes (an empty slice that is not \<^verbatim>\<open>nil\<close> as the empty text).
\<close>

definition cellText :: "string option \<Rightarrow> string" where
  "cellText value = (case value of None \<Rightarrow> ''NULL'' | Some v \<Rightarrow> v)"

text \<open>
  \<^verbatim>\<open>for colNum, value := range values\<close> (lines 315 to 322): one data row, \<open>colNum\<close> being
  the index reached. The cells are data: a text can be longer than a cell holds, and
  \<open>rowNum\<close> can pass the last row of the sheet.
\<close>

fun setRow :: "env \<Rightarrow> nat \<Rightarrow> nat \<Rightarrow> string option list \<Rightarrow> sheet \<Rightarrow> sheet" where
  "setRow E colNum rowNum [] f = f"
| "setRow E colNum rowNum (value # values) f =
     setRow E (colNum + 1) rowNum values (SetCellValue E (colNum + 1) rowNum (cellText value) f)"

text \<open>
  \<^verbatim>\<open>rows.Scan(scanArgs...)\<close> with \<open>n\<close> destinations: the driver's error, an error when the
  row does not have \<open>n\<close> cells, or the cells.
\<close>

definition rowsScan :: "nat \<Rightarrow> error + string option list \<Rightarrow> error + string option list" where
  "rowsScan n r =
     (case r of
        Inl e \<Rightarrow> Inl e
      | Inr cells \<Rightarrow>
          if length cells \<noteq> n then Inl (Err ''sql: wrong number of destination arguments in Scan'')
          else Inr cells)"

text \<open>The loop \<^verbatim>\<open>for rows.Next()\<close> of lines 309 to 324; \<open>rowNum\<close> is the next output row.\<close>

fun scanLoop :: "env \<Rightarrow> nat \<Rightarrow> (error + string option list) list \<Rightarrow> nat \<Rightarrow> sheet \<Rightarrow> error + sheet" where
  "scanLoop E n [] rowNum f = Inr f"
| "scanLoop E n (r # rs) rowNum f =
     (case rowsScan n r of
        Inl e \<Rightarrow> Inl e
      | Inr values \<Rightarrow> scanLoop E n rs (rowNum + 1) (setRow E 0 rowNum values f))"

text \<open>
  \<^verbatim>\<open>exportTableToExcel\<close> returns a pointer to a new buffer and an error, one of them
  \<^verbatim>\<open>nil\<close>. The new workbook has the empty sheet \<^verbatim>\<open>Sheet1\<close>. The buffer enters the heap
  with the bytes of the workbook once \<^verbatim>\<open>file.Write\<close> has succeeded; a buffer whose write
  failed is never returned.
\<close>

definition exportTableToExcel :: "env \<Rightarrow> string \<Rightarrow> world \<Rightarrow> nat option \<times> error option \<times> world" where
  "exportTableToExcel E tableName w =
     (case newSheet E of
        Some e \<Rightarrow> (None, Some e, w)
      | None \<Rightarrow>
          (let query = ''SELECT * FROM '' @ tableName;
               w1 = w\<lparr>events := events w @ [EvQuery query]\<rparr>
           in case dbQuery E query of
                Inl e \<Rightarrow> (None, Some e, w1)
              | Inr rows \<Rightarrow>
                  (case rowsColumns rows of
                     Inl e \<Rightarrow> (None, Some e, w1)
                   | Inr columns \<Rightarrow>
                       (case scanLoop E (length columns) (rowsScans rows) 2
                               (setHeader 0 1 columns Map.empty) of
                          Inl e \<Rightarrow> (None, Some e, w1)
                        | Inr f \<Rightarrow>
                            (case rowsErr rows of
                               Some e \<Rightarrow> (None, Some e, w1)
                             | None \<Rightarrow>
                                 (case fileWrite E f of
                                    Inl e \<Rightarrow> (None, Some e, w1)
                                  | Inr bytes \<Rightarrow>
                                      (let buffer = nextAddr w1;
                                           w2 = w1\<lparr>heap := (heap w1)(buffer \<mapsto> bytes),
                                                   nextAddr := buffer + 1\<rparr>
                                       in case fileClose E of
                                            Some e \<Rightarrow> (None, Some e, w2)
                                          | None \<Rightarrow> (Some buffer, None, w2))))))))"

section \<open>The job\<close>

text \<open>
  \<^verbatim>\<open>createDMDB\<close>: the check of the four strings, \<^verbatim>\<open>sql.Open\<close>, \<^verbatim>\<open>db.Ping\<close>. The result is
  the error, \<open>None\<close> when the connection is returned.
\<close>

definition createDMDB :: "env \<Rightarrow> string \<Rightarrow> string \<Rightarrow> string \<Rightarrow> string \<Rightarrow> error option" where
  "createDMDB E username password host port =
     (if username = [] \<or> password = [] \<or> host = [] \<or> port = [] then
        Some (Err ''invalid database credentials or host information'')
      else
        (let dataSourceName = ''dm://'' @ username @ '':'' @ password @ ''@'' @ host @ '':'' @ port
         in case sqlOpen E dataSourceName of
              Some e \<Rightarrow> Some e
            | None \<Rightarrow> dbPing E dataSourceName))"

definition xlsxMime :: string where
  "xlsxMime = ''application/vnd.openxmlformats-officedocument.spreadsheetml.sheet''"

text \<open>
  The inner loop of lines 428 to 440: \<open>attachments\<close> is the slice built so far. The
  result is the error where the source returns from \<^verbatim>\<open>task\<close>.
\<close>

fun exportAttachments ::
  "env \<Rightarrow> TableAttachmentConfig list \<Rightarrow> Attachment list \<Rightarrow> world
     \<Rightarrow> (error + Attachment list) \<times> world" where
  "exportAttachments E [] attachments w = (Inr attachments, w)"
| "exportAttachments E (ac # acs) attachments w =
     (case exportTableToExcel E (taTable ac) w of
        (attachment, Some e, w') \<Rightarrow> (Inl e, w')
      | (attachment, None, w') \<Rightarrow>
          exportAttachments E acs
            (attachments @ [\<lparr>fileName = taExcel ac, mimeType = xlsxMime, fileBuf = attachment\<rparr>]) w')"

text \<open>The loop over the recipients, lines 442 to 461.\<close>

fun sendToAll :: "env \<Rightarrow> Config \<Rightarrow> PostConfig \<Rightarrow> Attachment list \<Rightarrow> string list \<Rightarrow> world \<Rightarrow> status \<times> world" where
  "sendToAll E config post attachments [] w = (Done, w)"
| "sendToAll E config post attachments (recipient # rest) w =
     (case SendEmail E (emailHost (cfgEmail config)) (fmtInt (emailPort (cfgEmail config)))
             (emailUsername (cfgEmail config)) (emailPassword (cfgEmail config))
             (postFrom post) recipient (postSubject post) (postBody post) attachments w of
        (Done, w') \<Rightarrow> sendToAll E config post attachments rest w'
      | (st, w') \<Rightarrow> (st, w'))"

text \<open>The loop over the posts, lines 426 to 462.\<close>

fun runPosts :: "env \<Rightarrow> Config \<Rightarrow> PostConfig list \<Rightarrow> world \<Rightarrow> status \<times> world" where
  "runPosts E config [] w = (Done, w)"
| "runPosts E config (post # posts) w =
     (case exportAttachments E (postAttachment post) [] w of
        (Inl e, w') \<Rightarrow> (Failed e, w')
      | (Inr attachments, w') \<Rightarrow>
          (case sendToAll E config post attachments (postTo post) w' of
             (Done, w'') \<Rightarrow> runPosts E config posts w''
           | (st, w'') \<Rightarrow> (st, w'')))"

text \<open>
  \<^verbatim>\<open>task\<close> returns nothing; the status tells which way it ended: \<open>Done\<close> at the last line,
  \<open>Failed\<close> at one of its \<^verbatim>\<open>return\<close> statements.
\<close>

definition task :: "env \<Rightarrow> Config \<Rightarrow> world \<Rightarrow> status \<times> world" where
  "task E config w =
     (case createDMDB E (dbUsername (cfgDB config)) (dbPassword (cfgDB config))
             (dbHost (cfgDB config)) (fmtInt (dbPort (cfgDB config))) of
        Some e \<Rightarrow> (Failed e, w)
      | None \<Rightarrow> runPosts E config (cfgPost config) w)"

text \<open>
  \<^verbatim>\<open>main\<close>: it returns before anything is scheduled when the flag is empty, when the
  configuration cannot be read, or when the scheduler rejects the time expression;
  otherwise the scheduler is started with \<^verbatim>\<open>task(*config)\<close> as its job and \<^verbatim>\<open>main\<close>
  blocks forever.
\<close>

datatype startup = Exited | Scheduled string Config

definition main :: "env \<Rightarrow> string \<Rightarrow> startup" where
  "main E configPath =
     (if configPath = [] then Exited
      else case readConfig E configPath of
             Inl e \<Rightarrow> Exited
           | Inr config \<Rightarrow>
               (case cronAddFunc E (cfgTime config) of
                  Some e \<Rightarrow> Exited
                | None \<Rightarrow> Scheduled (cfgTime config) config))"

text \<open>What the scheduler does at each trigger of a started job.\<close>

definition trigger :: "env \<Rightarrow> startup \<Rightarrow> world \<Rightarrow> (status \<times> world) option" where
  "trigger E s w = (case s of Exited \<Rightarrow> None | Scheduled t config \<Rightarrow> Some (task E config w))"

section \<open>Reference definitions and example inputs\<close>

text \<open>
  The TabularDocument of the specification for given column names and data rows:
  row 1 holds the column names, row \<open>N + 1\<close> holds the cells of data row \<open>N\<close> as text,
  the text \<^verbatim>\<open>NULL\<close> for a cell without a value, and no other cell is set.
\<close>

definition tabularDocument :: "string list \<Rightarrow> string option list list \<Rightarrow> sheet" where
  "tabularDocument columns dataRows =
     (\<lambda>(c, r).
        if c < 1 \<or> length columns < c then None
        else if r = 1 then Some (columns ! (c - 1))
        else if 2 \<le> r \<and> r \<le> length dataRows + 1 then
          (case dataRows ! (r - 2) ! (c - 1) of None \<Rightarrow> Some ''NULL'' | Some v \<Rightarrow> Some v)
        else None)"

text \<open>
  The lines of a text, as a reader of a message takes them: the pieces between the
  line breaks CR LF. A text that ends with a line break has the empty piece as its
  last one.
\<close>

fun linesCRLF :: "string \<Rightarrow> string list" where
  "linesCRLF [] = [[]]"
| "linesCRLF [c] = [[c]]"
| "linesCRLF (c # d # cs) =
     (if c = CHR 0x0D \<and> d = CHR 0x0A then [] # linesCRLF cs
      else (case linesCRLF (d # cs) of [] \<Rightarrow> [[c]] | l # ls \<Rightarrow> (c # l) # ls))"

text \<open>
  The layout of a message: the header block, the body part, and one part per
  attachment, for a boundary \<open>B\<close>.
\<close>

definition headerBlock :: "string list \<Rightarrow> string \<Rightarrow> string \<Rightarrow> string \<Rightarrow> string \<Rightarrow> string" where
  "headerBlock ks from to subject B = rangeHeaders ks (topHeaders from to subject B) @ CRLF"

definition bodyPart :: "string \<Rightarrow> string \<Rightarrow> string" where
  "bodyPart B body =
     ''--'' @ B @ CRLF
     @ ''Content-Transfer-Encoding: quoted-printable'' @ CRLF
     @ ''Content-Type: text/plain; charset=utf-8'' @ CRLF
     @ CRLF
     @ qpEncode body"

definition attachmentPart :: "string \<Rightarrow> string \<Rightarrow> string \<Rightarrow> string \<Rightarrow> string" where
  "attachmentPart B fName mType payload =
     CRLF @ ''--'' @ B @ CRLF
     @ ''Content-Disposition: attachment; filename=\"'' @ fName @ ''\"'' @ CRLF
     @ ''Content-Transfer-Encoding: base64'' @ CRLF
     @ ''Content-Type: '' @ mType @ CRLF
     @ CRLF
     @ base64Encode payload"

text \<open>
  Reference decoders, as a receiving mail client applies them. Base64 (RFC 4648):
  groups of four characters of the standard alphabet give three bytes; the last group
  may end in one or two padding characters.
\<close>

definition b64val :: "char \<Rightarrow> nat option" where
  "b64val c = map_of (zip encodeStd [0..<64]) c"

fun base64Decode :: "string \<Rightarrow> string option" where
  "base64Decode [] = Some []"
| "base64Decode (c1 # c2 # c3 # c4 # rest) =
     (case (b64val c1, b64val c2) of
        (Some v1, Some v2) \<Rightarrow>
          (if rest = [] \<and> c3 = CHR ''='' \<and> c4 = CHR ''='' then Some [char_of (v1 * 4 + v2 div 16)]
           else case b64val c3 of
                  None \<Rightarrow> None
                | Some v3 \<Rightarrow>
                    (if rest = [] \<and> c4 = CHR ''='' then
                       Some [char_of (v1 * 4 + v2 div 16), char_of (v2 mod 16 * 16 + v3 div 4)]
                     else case b64val c4 of
                            None \<Rightarrow> None
                          | Some v4 \<Rightarrow>
                              map_option
                                (\<lambda>bs. char_of (v1 * 4 + v2 div 16) # char_of (v2 mod 16 * 16 + v3 div 4)
                                       # char_of (v3 mod 4 * 64 + v4) # bs)
                                (base64Decode rest)))
      | _ \<Rightarrow> None)"
| "base64Decode cs = None"

text \<open>
  Quoted-printable (RFC 2045, section 6.7): \<^verbatim>\<open>=\<close> followed by two upper-case hexadecimal
  digits is the byte with that value; \<^verbatim>\<open>=\<close> followed by CRLF is a soft line break and
  stands for nothing; blanks at the end of a line are dropped; every other character
  stands for itself.
\<close>

definition hexVal :: "char \<Rightarrow> nat option" where
  "hexVal c = map_of (zip upperhex [0..<16]) c"

definition trailingWs :: "string \<Rightarrow> bool" where
  "trailingWs cs = (let r = dropWhile isWhitespace cs in r = [] \<or> take 2 r = CRLF)"

fun qpDecode :: "string \<Rightarrow> string option" where
  "qpDecode [] = Some []"
| "qpDecode (c # cs) =
     (if c = CHR ''='' then
        (case cs of
           h # l # rest \<Rightarrow>
             (if h = CR \<and> l = LF then qpDecode rest
              else case (hexVal h, hexVal l) of
                     (Some a, Some b) \<Rightarrow> map_option ((#) (char_of (a * 16 + b))) (qpDecode rest)
                   | _ \<Rightarrow> None)
         | _ \<Rightarrow> None)
      else if isWhitespace c \<and> trailingWs cs then qpDecode cs
      else map_option ((#) c) (qpDecode cs))"

text \<open>
  The text that the quoted-printable writer stands for: the body with its line breaks
  rewritten. A carriage return becomes CRLF; a line feed becomes CRLF, unless the
  writer's flag says that the break before it came from a carriage return, in which
  case it is dropped. The flag is cleared by a byte written literally and kept by a
  byte written in the \<^verbatim>\<open>=XX\<close> form. \<open>cr\<close> is the flag.
\<close>

fun qpText :: "bool \<Rightarrow> string \<Rightarrow> string" where
  "qpText cr [] = []"
| "qpText cr (b # bs) =
     (if b = CR then CRLF @ qpText True bs
      else if b = LF then (if cr then qpText False bs else CRLF @ qpText False bs)
      else if qpSimple b then b # qpText False bs
      else b # qpText cr bs)"

text \<open>A text all of whose line breaks are CRLF: no carriage return or line feed stands alone.\<close>

fun crlfOnly :: "string \<Rightarrow> bool" where
  "crlfOnly [] = True"
| "crlfOnly (c # cs) =
     (if c = CR then (case cs of [] \<Rightarrow> False | d # ds \<Rightarrow> d = LF \<and> crlfOnly ds)
      else c \<noteq> LF \<and> crlfOnly cs)"

text \<open>
  Notions used in the proof about the quoted-printable writer. \<open>solidNext k\<close>: after
  any blanks, \<open>k\<close> goes on with a character other than a carriage return.
  \<open>qpInv0 out line txt\<close>: the output \<open>out\<close> followed by the buffered \<open>line\<close> decodes to
  \<open>txt\<close>, whatever follows (if the line ends in a blank: whatever solid follows).
\<close>

definition solidNext :: "string \<Rightarrow> bool" where
  "solidNext k = (case dropWhile isWhitespace k of [] \<Rightarrow> False | c # cs \<Rightarrow> c \<noteq> CR)"

definition endsWs :: "string \<Rightarrow> bool" where
  "endsWs l \<longleftrightarrow> l \<noteq> [] \<and> isWhitespace (last l)"

definition qpInv0 :: "string \<Rightarrow> string \<Rightarrow> string \<Rightarrow> bool" where
  "qpInv0 out line txt \<longleftrightarrow>
     (\<forall>k. (endsWs line \<longrightarrow> solidNext k) \<longrightarrow>
          qpDecode (out @ line @ k) = map_option ((@) txt) (qpDecode k))"

definition qpInv :: "qpWriter \<Rightarrow> string \<Rightarrow> bool" where
  "qpInv w txt \<longleftrightarrow>
     qpInv0 (qpOut w) (qpLine w) txt
     \<and> (endsWs (qpLine w) \<longrightarrow>
          txt \<noteq> [] \<and> last txt = last (qpLine w)
          \<and> qpInv0 (qpOut w) (butlast (qpLine w)) (butlast txt))"



text \<open>The heap once the buffers of the given attachments have been read to their end.\<close>

definition drained :: "Attachment list \<Rightarrow> (nat \<Rightarrow> string option) \<Rightarrow> (nat \<Rightarrow> string option)" where
  "drained as h = (\<lambda>x. if Some x \<in> fileBuf ` set as then Some [] else h x)"

text \<open>An example database, serialiser, mail server and configuration.\<close>

definition exRows :: sqlRows where
  "exRows = \<lparr>rowsColumns = Inr [''ID'', ''NAME''],
              rowsScans = [Inr [Some ''1'', None], Inr [Some ''2'', Some ''b'']],
              rowsErr = None\<rparr>"

definition exEmptyRows :: sqlRows where
  "exEmptyRows = \<lparr>rowsColumns = Inr [''ID'', ''NAME''], rowsScans = [], rowsErr = None\<rparr>"

definition exBadRows :: sqlRows where
  "exBadRows = \<lparr>rowsColumns = Inr [''ID'', ''NAME''],
                 rowsScans = [Inr [Some ''1'', None], Inl (Err ''scan failed''), Inr [Some ''3'', None]],
                 rowsErr = None\<rparr>"



definition exFileWrite :: "sheet \<Rightarrow> error + string" where
  "exFileWrite f =
     Inr (concat (map (\<lambda>r. concat (map (\<lambda>c. case f (c, r) of None \<Rightarrow> [] | Some v \<Rightarrow> v @ '','')
                                      [1, 2, 3]) @ '';'')
                   [1, 2, 3, 4]))"

definition exPost :: PostConfig where
  "exPost =
     \<lparr>postFrom = ''sender@example.com'',
      postTo = [''first@example.com'', ''second@example.com''],
      postSubject = ''SUBJECT'',
      postBody = ''CONTENT'',
      postAttachment = [\<lparr>taTable = ''TEST_01'', taExcel = ''01.xlsx''\<rparr>,
                        \<lparr>taTable = ''TEST_02'', taExcel = ''02.xlsx''\<rparr>]\<rparr>"

definition exConfig :: Config where
  "exConfig =
     \<lparr>cfgEmail = \<lparr>emailHost = ''smtp.example.com'', emailPort = 465,
                  emailUsername = ''mailer'', emailPassword = ''secret''\<rparr>,
      cfgDB = \<lparr>dbHost = ''db.example.com'', dbPort = 5236,
               dbUsername = ''SYSDBA'', dbPassword = ''secret''\<rparr>,
      cfgPost = [exPost],
      cfgTime = ''00 08 * * *''\<rparr>"

text \<open>The same configuration without a database user name.\<close>

definition exNoCredsConfig :: Config where
  "exNoCredsConfig = exConfig\<lparr>cfgDB := (cfgDB exConfig)\<lparr>dbUsername := []\<rparr>\<rparr>"

text \<open>
  A configuration whose first post has three tables, the second of which fails in the
  example database, followed by a second post.
\<close>

definition exFailPost :: PostConfig where
  "exFailPost =
     exPost\<lparr>postAttachment := [\<lparr>taTable = ''TEST_01'', taExcel = ''01.xlsx''\<rparr>,
                               \<lparr>taTable = ''TEST_03'', taExcel = ''03.xlsx''\<rparr>,
                               \<lparr>taTable = ''TEST_02'', taExcel = ''02.xlsx''\<rparr>]\<rparr>"

definition exFailConfig :: Config where
  "exFailConfig = exConfig\<lparr>cfgPost := [exFailPost, exPost]\<rparr>"

definition exCutText :: "string \<Rightarrow> string" where
  "exCutText v = take 32767 v"

definition exEnv :: env where
  "exEnv =
     \<lparr>sqlOpen = (\<lambda>dsn. None),
      dbPing = (\<lambda>dsn. None),
      dbQuery = (\<lambda>q. if q = ''SELECT * FROM TEST_01'' then Inr exRows
                     else if q = ''SELECT * FROM TEST_02'' then Inr exEmptyRows
                     else if q = ''SELECT * FROM TEST_03'' then Inr exBadRows
                     else Inl (Err ''no such table'')),
      newSheet = None,
      cutText = exCutText,
      fileWrite = exFileWrite,
      fileClose = None,
      randRead = (\<lambda>n. replicate 30 (char_of n)),
      mapOrder = (\<lambda>n. if even n then [''From'', ''To'', ''Subject'', ''MIME-Version'', ''Content-Type'']
                       else [''Content-Type'', ''MIME-Version'', ''Subject'', ''To'', ''From'']),
      smtp = (\<lambda>addr rcpt stage. None),
      readConfig = (\<lambda>path. if path = ''config.json'' then Inr exConfig
                          else if path = ''nocreds.json'' then Inr exNoCredsConfig
                          else Inl (Err ''no such file'')),
      cronAddFunc = (\<lambda>spec. None)\<rparr>"


definition exWorld :: world where
  "exWorld = \<lparr>heap = Map.empty, nextAddr = 0, prepared = 0, events = []\<rparr>"

text \<open>A world with one buffer holding two bytes, and an attachment that points to it.\<close>

definition exAttWorld :: world where
  "exAttWorld = \<lparr>heap = [0 \<mapsto> ''PK''], nextAddr = 1, prepared = 0, events = []\<rparr>"

definition exAttachment :: Attachment where
  "exAttachment = \<lparr>fileName = ''01.xlsx'', mimeType = xlsxMime, fileBuf = Some 0\<rparr>"

text \<open>The world of the example once \<^verbatim>\<open>TEST_01\<close> has been exported into a first buffer.\<close>

definition exWorld1 :: world where
  "exWorld1 = \<lparr>heap = [0 \<mapsto> ''ID,NAME,;1,NULL,;2,b,;;''], nextAddr = 1, prepared = 0,
               events = [EvQuery ''SELECT * FROM TEST_01'']\<rparr>"








text \<open>
  Forty-five bytes whose base64 text is sixty times the character \<^verbatim>\<open>0\<close>, and thirty
  zero bytes as the random source may return them.
\<close>

definition exPayload :: string where
  "exPayload = concat (replicate 15 [CHR 0xD3, CHR 0x4D, CHR 0x34])"

definition exZeroRnd :: string where
  "exZeroRnd = replicate 30 (CHR 0x00)"

section \<open>Properties of the table exporter\<close>

lemma setHeader_apply:
  "setHeader i r vs f (c, r') =
     (if r' = r \<and> i < c \<and> c \<le> i + length vs then Some (vs ! (c - i - 1)) else f (c, r'))"
proof (induction vs arbitrary: i f)
  case Nil
  then show ?case by auto
next
  case (Cons v vs)
  show ?case
    by (auto simp: Cons.IH nth_Cons')
qed




lemma scanLoop_fails:
  "\<forall>r\<in>set good. \<exists>cells. rowsScan n r = Inr cells \<Longrightarrow> rowsScan n bad = Inl e \<Longrightarrow>
     scanLoop E n (good @ bad # rest) k f = Inl e"
  by (induction good arbitrary: k f) auto

lemma scanLoop_ok:
  "\<forall>r\<in>set rs. \<exists>cells. rowsScan n r = Inr cells \<Longrightarrow> \<exists>g. scanLoop E n rs k f = Inr g"
  by (induction rs arbitrary: k f) auto

lemma exportTableToExcel_error_nil:
  "exportTableToExcel E t w = (b, Some e, w') \<Longrightarrow> b = None"
  by (auto simp: exportTableToExcel_def Let_def split: option.splits sum.splits)

text \<open>
  Claim C5. When the query fails, or the read of the column names fails, or a row scan
  fails after any number of rows that scanned well, or the iteration over the rows ends
  with an error, \<open>exportTableToExcel\<close> returns that error with a \<^verbatim>\<open>nil\<close> buffer, and
  no buffer has been added to the heap. On every path that returns an error the buffer
  is \<^verbatim>\<open>nil\<close>.
\<close>

theorem export_error_paths:
  assumes "newSheet E = None"
    and "dbQuery E (''SELECT * FROM '' @ t) = Inl e
         \<or> (dbQuery E (''SELECT * FROM '' @ t) = Inr rows \<and> rowsColumns rows = Inl e)
         \<or> (dbQuery E (''SELECT * FROM '' @ t) = Inr rows \<and> rowsColumns rows = Inr columns
            \<and> rowsScans rows = good @ bad # rest
            \<and> (\<forall>r\<in>set good. \<exists>cells. rowsScan (length columns) r = Inr cells)
            \<and> rowsScan (length columns) bad = Inl e)
         \<or> (dbQuery E (''SELECT * FROM '' @ t) = Inr rows \<and> rowsColumns rows = Inr columns
            \<and> (\<forall>r\<in>set (rowsScans rows). \<exists>cells. rowsScan (length columns) r = Inr cells)
            \<and> rowsErr rows = Some e)"
  shows "(\<exists>w'. exportTableToExcel E t w = (None, Some e, w') \<and> heap w' = heap w)
         \<and> (\<forall>E' t' w0 b e' w'. exportTableToExcel E' t' w0 = (b, Some e', w') \<longrightarrow> b = None)"
proof -
  have "\<exists>w'. exportTableToExcel E t w = (None, Some e, w') \<and> heap w' = heap w"
    using assms scanLoop_ok[of "rowsScans rows" "length columns" E 2 "setHeader 0 1 columns Map.empty"]
    by (auto simp: exportTableToExcel_def Let_def scanLoop_fails)
  then show ?thesis
    using exportTableToExcel_error_nil by blast
qed

lemma ex_export_03:
  "exportTableToExcel exEnv ''TEST_03'' exWorld =
     (None, Some (Err ''scan failed''), exWorld\<lparr>events := [EvQuery ''SELECT * FROM TEST_03'']\<rparr>)"
  by (simp add: exportTableToExcel_def exEnv_def exWorld_def exBadRows_def rowsScan_def
      cellText_def SetCellValue_def storedText_def MaxColumns_def TotalRows_def
      TotalCellChars_def Let_def)

theorem export_error_paths_witness:
  "newSheet exEnv = None
   \<and> dbQuery exEnv (''SELECT * FROM '' @ ''TEST_03'') = Inr exBadRows
   \<and> rowsScans exBadRows = [Inr [Some ''1'', None]] @ Inl (Err ''scan failed'') # [Inr [Some ''3'', None]]
   \<and> (\<exists>w'. exportTableToExcel exEnv ''TEST_03'' exWorld = (None, Some (Err ''scan failed''), w')
            \<and> heap w' = heap exWorld)"
proof -
  have h1: "newSheet exEnv = None"
    by (simp add: exEnv_def)
  have h2: "dbQuery exEnv (''SELECT * FROM '' @ ''TEST_03'') = Inl (Err ''scan failed'')
         \<or> (dbQuery exEnv (''SELECT * FROM '' @ ''TEST_03'') = Inr exBadRows
              \<and> rowsColumns exBadRows = Inl (Err ''scan failed''))
         \<or> (dbQuery exEnv (''SELECT * FROM '' @ ''TEST_03'') = Inr exBadRows
            \<and> rowsColumns exBadRows = Inr [''ID'', ''NAME'']
            \<and> rowsScans exBadRows = [Inr [Some ''1'', None]] @ Inl (Err ''scan failed'') # [Inr [Some ''3'', None]]
            \<and> (\<forall>r\<in>set [Inr [Some ''1'', None]]. \<exists>cells. rowsScan (length [''ID'', ''NAME'']) r = Inr cells)
            \<and> rowsScan (length [''ID'', ''NAME'']) (Inl (Err ''scan failed'')) = Inl (Err ''scan failed''))
         \<or> (dbQuery exEnv (''SELECT * FROM '' @ ''TEST_03'') = Inr exBadRows
            \<and> rowsColumns exBadRows = Inr [''ID'', ''NAME'']
            \<and> (\<forall>r\<in>set (rowsScans exBadRows). \<exists>cells. rowsScan (length [''ID'', ''NAME'']) r = Inr cells)
            \<and> rowsErr exBadRows = Some (Err ''scan failed''))"
    by (simp add: exEnv_def exBadRows_def rowsScan_def)
  from export_error_paths[OF h1 h2, of exWorld] show ?thesis
    by (simp add: exEnv_def exBadRows_def)
qed

lemma setHeader_header: "setHeader 0 1 columns Map.empty = tabularDocument columns []"
  by (rule ext) (auto simp: tabularDocument_def setHeader_apply split: prod.splits)


lemma ex_export_01:
  "exportTableToExcel exEnv ''TEST_01'' exWorld =
     (Some 0, None, exWorld1)"
  by (simp add: exportTableToExcel_def exEnv_def exWorld_def exWorld1_def exRows_def
      exFileWrite_def rowsScan_def cellText_def SetCellValue_def storedText_def
      MaxColumns_def TotalRows_def TotalCellChars_def Let_def)



text \<open>
  Claim C9. For a relation with zero data rows (the result set has column names, no
  row and no iteration error), when the library serialises and closes the workbook
  without error, \<open>exportTableToExcel\<close> returns no error and a new buffer holding the
  serialised header-only worksheet: row 1 with the column names and nothing else.
\<close>

theorem export_zero_rows:
  assumes "newSheet E = None"
    and "dbQuery E (''SELECT * FROM '' @ t) = Inr rows"
    and "rowsColumns rows = Inr columns"
    and "rowsScans rows = []"
    and "rowsErr rows = None"
    and "fileWrite E (tabularDocument columns []) = Inr bytes"
    and "fileClose E = None"
  shows "(\<exists>w'. exportTableToExcel E t w = (Some (nextAddr w), None, w')
              \<and> heap w' (nextAddr w) = Some bytes)
         \<and> (\<forall>c r. tabularDocument columns [] (c, r) =
                (if r = 1 \<and> 1 \<le> c \<and> c \<le> length columns then Some (columns ! (c - 1)) else None))"
proof -
  have "\<exists>w'. exportTableToExcel E t w = (Some (nextAddr w), None, w')
              \<and> heap w' (nextAddr w) = Some bytes"
    using assms unfolding exportTableToExcel_def setHeader_header by (simp add: Let_def)
  moreover have "\<forall>c r. tabularDocument columns [] (c, r) =
                (if r = 1 \<and> 1 \<le> c \<and> c \<le> length columns then Some (columns ! (c - 1)) else None)"
    by (auto simp: tabularDocument_def)
  ultimately show ?thesis by blast
qed

theorem export_zero_rows_witness:
  "dbQuery exEnv (''SELECT * FROM '' @ ''TEST_02'') = Inr exEmptyRows
   \<and> rowsScans exEmptyRows = []
   \<and> fileWrite exEnv (tabularDocument [''ID'', ''NAME''] []) = Inr ''ID,NAME,;;;;''
   \<and> (\<exists>w'. exportTableToExcel exEnv ''TEST_02'' exWorld = (Some (nextAddr exWorld), None, w')
            \<and> heap w' (nextAddr exWorld) = Some ''ID,NAME,;;;;'')"
proof -
  have h1: "newSheet exEnv = None" and h7: "fileClose exEnv = None"
    and h2: "dbQuery exEnv (''SELECT * FROM '' @ ''TEST_02'') = Inr exEmptyRows"
    by (simp_all add: exEnv_def)
  have h3: "rowsColumns exEmptyRows = Inr [''ID'', ''NAME'']"
    and h4: "rowsScans exEmptyRows = []" and h5: "rowsErr exEmptyRows = None"
    by (simp_all add: exEmptyRows_def)
  have h6: "fileWrite exEnv (tabularDocument [''ID'', ''NAME''] []) = Inr ''ID,NAME,;;;;''"
    by (simp add: exEnv_def exFileWrite_def tabularDocument_def)
  from export_zero_rows[OF h1 h2 h3 h4 h5 h6 h7, of exWorld] show ?thesis
    using h2 h4 h6 by simp
qed

section \<open>Startup and database credentials\<close>

lemma main_Exited_iff:
  "main E configPath = Exited \<longleftrightarrow>
     configPath = [] \<or> (\<exists>e. readConfig E configPath = Inl e)
     \<or> (\<exists>config e. readConfig E configPath = Inr config \<and> cronAddFunc E (cfgTime config) = Some e)"
  by (auto simp: main_def split: sum.splits option.splits)

lemma createDMDB_missing:
  "username = [] \<or> password = [] \<or> host = [] \<Longrightarrow>
     createDMDB E username password host port = Some (Err ''invalid database credentials or host information'')"
  by (auto simp: createDMDB_def)

text \<open>
  Claim C7, as the code has it. \<open>main\<close> ends before anything is scheduled exactly when
  the configuration path is empty, the configuration cannot be read, or the scheduler
  rejects the time expression. The database credentials are not looked at during
  startup: with a readable configuration and an accepted time expression the job is
  scheduled whatever the credentials are; when \<open>createDMDB\<close> then fails (as it does for
  a missing user name, password or host), every trigger of the job ends with that
  error and leaves the world as it was: no query, no message.
\<close>

theorem credentials_checked_at_trigger:
  "(main E configPath = Exited \<longleftrightarrow>
      configPath = [] \<or> (\<exists>e. readConfig E configPath = Inl e)
      \<or> (\<exists>config e. readConfig E configPath = Inr config \<and> cronAddFunc E (cfgTime config) = Some e))
   \<and> (configPath \<noteq> [] \<and> readConfig E configPath = Inr config
        \<and> cronAddFunc E (cfgTime config) = None
        \<and> createDMDB E (dbUsername (cfgDB config)) (dbPassword (cfgDB config))
              (dbHost (cfgDB config)) (fmtInt (dbPort (cfgDB config))) = Some e
      \<longrightarrow> main E configPath = Scheduled (cfgTime config) config
          \<and> trigger E (main E configPath) w = Some (Failed e, w))
   \<and> (dbUsername (cfgDB config) = [] \<or> dbPassword (cfgDB config) = [] \<or> dbHost (cfgDB config) = []
      \<longrightarrow> createDMDB E (dbUsername (cfgDB config)) (dbPassword (cfgDB config))
              (dbHost (cfgDB config)) (fmtInt (dbPort (cfgDB config)))
            = Some (Err ''invalid database credentials or host information''))"
proof (intro conjI impI)
  show "main E configPath = Exited \<longleftrightarrow>
      configPath = [] \<or> (\<exists>e. readConfig E configPath = Inl e)
      \<or> (\<exists>config e. readConfig E configPath = Inr config \<and> cronAddFunc E (cfgTime config) = Some e)"
    by (rule main_Exited_iff)
next
  assume a: "configPath \<noteq> [] \<and> readConfig E configPath = Inr config
        \<and> cronAddFunc E (cfgTime config) = None
        \<and> createDMDB E (dbUsername (cfgDB config)) (dbPassword (cfgDB config))
              (dbHost (cfgDB config)) (fmtInt (dbPort (cfgDB config))) = Some e"
  then show m: "main E configPath = Scheduled (cfgTime config) config"
    by (simp add: main_def)
  from a show "trigger E (main E configPath) w = Some (Failed e, w)"
    by (simp add: m trigger_def task_def)
next
  assume "dbUsername (cfgDB config) = [] \<or> dbPassword (cfgDB config) = [] \<or> dbHost (cfgDB config) = []"
  then show "createDMDB E (dbUsername (cfgDB config)) (dbPassword (cfgDB config))
              (dbHost (cfgDB config)) (fmtInt (dbPort (cfgDB config)))
            = Some (Err ''invalid database credentials or host information'')"
    by (rule createDMDB_missing)
qed

theorem credentials_checked_at_trigger_witness:
  "dbUsername (cfgDB exNoCredsConfig) = []
   \<and> readConfig exEnv ''nocreds.json'' = Inr exNoCredsConfig
   \<and> main exEnv ''nocreds.json'' = Scheduled ''00 08 * * *'' exNoCredsConfig
   \<and> trigger exEnv (main exEnv ''nocreds.json'') exWorld
       = Some (Failed (Err ''invalid database credentials or host information''), exWorld)"
proof -
  have c: "createDMDB exEnv (dbUsername (cfgDB exNoCredsConfig)) (dbPassword (cfgDB exNoCredsConfig))
              (dbHost (cfgDB exNoCredsConfig)) (fmtInt (dbPort (cfgDB exNoCredsConfig)))
            = Some (Err ''invalid database credentials or host information'')"
    by (simp add: createDMDB_def exNoCredsConfig_def)
  have r: "readConfig exEnv ''nocreds.json'' = Inr exNoCredsConfig"
    and a: "cronAddFunc exEnv (cfgTime exNoCredsConfig) = None"
    by (simp_all add: exEnv_def)
  have t: "cfgTime exNoCredsConfig = ''00 08 * * *''"
    by (simp add: exNoCredsConfig_def exConfig_def)
  have p: "''nocreds.json'' \<noteq> [] \<and> readConfig exEnv ''nocreds.json'' = Inr exNoCredsConfig
        \<and> cronAddFunc exEnv (cfgTime exNoCredsConfig) = None
        \<and> createDMDB exEnv (dbUsername (cfgDB exNoCredsConfig)) (dbPassword (cfgDB exNoCredsConfig))
              (dbHost (cfgDB exNoCredsConfig)) (fmtInt (dbPort (cfgDB exNoCredsConfig)))
            = Some (Err ''invalid database credentials or host information'')"
    using c r a by simp
  have u: "dbUsername (cfgDB exNoCredsConfig) = []"
    by (simp add: exNoCredsConfig_def)
  from credentials_checked_at_trigger[of exEnv "''nocreds.json''" exNoCredsConfig
      "Err ''invalid database credentials or host information''" exWorld,
      THEN conjunct2, THEN conjunct1, THEN mp, OF p]
  show ?thesis using r u unfolding t by blast
qed

text \<open>
  Claim C7 as stated fails: with the user name missing, \<open>main\<close> does not exit; the job is
  scheduled.
\<close>

theorem missing_credentials_scheduled:
  "dbUsername (cfgDB exNoCredsConfig) = []
   \<and> main exEnv ''nocreds.json'' = Scheduled ''00 08 * * *'' exNoCredsConfig
   \<and> main exEnv ''nocreds.json'' \<noteq> Exited"
  by (simp add: main_def exEnv_def exNoCredsConfig_def exConfig_def)

section \<open>The boundary token\<close>

lemma length_lowerhex: "length lowerhex = 16"
  by (simp add: lowerhex_def)

lemma distinct_lowerhex: "distinct lowerhex"
  by (simp add: lowerhex_def)

lemma of_char_div16: "(of_char c :: nat) div 16 < 16"
  using nat_of_char_less_256[of c] by presburger

lemma hexByte_inj: "hexByte a = hexByte b \<Longrightarrow> a = b"
proof -
  assume h: "hexByte a = hexByte b"
  let ?a = "of_char a :: nat" and ?b = "of_char b :: nat"
  have la: "?a div 16 < 16" "?a mod 16 < 16" and lb: "?b div 16 < 16" "?b mod 16 < 16"
    by (simp_all add: of_char_div16)
  from h have "lowerhex ! (?a div 16) = lowerhex ! (?b div 16)"
    and "lowerhex ! (?a mod 16) = lowerhex ! (?b mod 16)"
    by (simp_all add: hexByte_def)
  then have "?a div 16 = ?b div 16" and "?a mod 16 = ?b mod 16"
    using la lb distinct_lowerhex length_lowerhex by (simp_all add: nth_eq_iff_index_eq)
  then have "?a = ?b"
    by (metis div_mult_mod_eq)
  then show "a = b"
    by simp
qed

lemma randomBoundary_inj: "randomBoundary r1 = randomBoundary r2 \<longleftrightarrow> r1 = r2"
proof
  show "randomBoundary r1 = randomBoundary r2 \<Longrightarrow> r1 = r2"
  proof (induction r1 arbitrary: r2)
    case Nil
    then show ?case by (cases r2) (simp_all add: randomBoundary_def hexByte_def)
  next
    case (Cons a r1)
    then obtain b r2' where r2: "r2 = b # r2'"
      by (cases r2) (simp_all add: randomBoundary_def hexByte_def)
    from Cons.prems r2 have "hexByte a = hexByte b" and "randomBoundary r1 = randomBoundary r2'"
      by (simp_all add: randomBoundary_def hexByte_def)
    then show ?case
      using Cons.IH r2 hexByte_inj by blast
  qed
qed simp

lemma length_randomBoundary: "length (randomBoundary r) = 2 * length r"
  by (induction r) (simp_all add: randomBoundary_def hexByte_def)

lemma set_randomBoundary: "set (randomBoundary r) \<subseteq> set lowerhex"
proof -
  have "set (hexByte c) \<subseteq> set lowerhex" for c
    by (simp add: hexByte_def length_lowerhex of_char_div16)
  then show ?thesis
    by (auto simp: randomBoundary_def)
qed

lemma length_encodeStd: "length encodeStd = 64"
  by (simp add: encodeStd_def)

lemma b64char_in: "b64char i \<in> set encodeStd"
  by (simp add: b64char_def length_encodeStd)

lemma set_base64Encode: "set (base64Encode p) \<subseteq> insert (CHR ''='') (set encodeStd)"
  by (induction p rule: base64Encode.induct) (auto simp: Let_def b64char_in)

lemma hyphen_not_base64: "CHR ''-'' \<notin> set (base64Encode p)"
proof -
  have "CHR ''-'' \<notin> insert (CHR ''='') (set encodeStd)"
    by (simp add: encodeStd_def)
  then show ?thesis
    using set_base64Encode by blast
qed

text \<open>
  Claim C8, as the code has it. The boundary token is the lower-case hexadecimal text
  of the bytes read from the random source, two digits per byte: two messages have the
  same token exactly when the random source returned the same bytes for both. The
  token is not compared with the content of the message. A delimiter line, which is
  two hyphens followed by the token, does not occur in the base64 text of an
  attachment, since that text has no hyphen.
\<close>

theorem boundary_token_properties:
  "(randomBoundary r1 = randomBoundary r2 \<longleftrightarrow> r1 = r2)
   \<and> length (randomBoundary r) = 2 * length r
   \<and> set (randomBoundary r) \<subseteq> set lowerhex
   \<and> \<not> sublist (''--'' @ randomBoundary r) (base64Encode payload)"
proof -
  have "\<not> sublist (''--'' @ randomBoundary r) (base64Encode payload)"
  proof
    assume "sublist (''--'' @ randomBoundary r) (base64Encode payload)"
    then have "set (''--'' @ randomBoundary r) \<subseteq> set (base64Encode payload)"
      by (rule set_mono_sublist)
    then show False
      using hyphen_not_base64[of payload] by simp
  qed
  then show ?thesis
    using randomBoundary_inj length_randomBoundary set_randomBoundary by blast
qed

lemma ex_zero_boundary: "randomBoundary exZeroRnd = replicate 60 (CHR ''0'')"
  by code_simp

text \<open>
  Claim C8 as stated fails. When the random source returns thirty zero bytes, the token
  is sixty times \<^verbatim>\<open>0\<close>; it occurs in the quoted-printable text of a body that contains
  it, and it is the base64 text of a payload of forty-five bytes.
\<close>

theorem boundary_token_in_content:
  "sublist (randomBoundary exZeroRnd) (qpEncode (replicate 60 (CHR ''0'')))
   \<and> sublist (randomBoundary exZeroRnd) (base64Encode exPayload)"
proof -
  have q: "qpEncode (replicate 60 (CHR ''0'')) = replicate 60 (CHR ''0'')"
    by code_simp
  have g: "base64Encode (CHR 0xD3 # CHR 0x4D # CHR 0x34 # rest) = ''0000'' @ base64Encode rest" for rest
    by (simp add: b64char_def encodeStd_def)
  have "base64Encode (concat (replicate n [CHR 0xD3, CHR 0x4D, CHR 0x34])) = concat (replicate n ''0000'')" for n
  proof (induction n)
    case 0
    then show ?case by simp
  next
    case (Suc n)
    then show ?case by (simp add: g del: base64Encode.simps)
  qed
  then have "base64Encode exPayload = concat (replicate 15 ''0000'')"
    unfolding exPayload_def .
  also have "\<dots> = replicate 60 (CHR ''0'')"
    by code_simp
  finally have b: "base64Encode exPayload = replicate 60 (CHR ''0'')" .
  show ?thesis
    unfolding ex_zero_boundary q b by (intro conjI sublist_order.order_refl)
qed

section \<open>Properties of the message builder\<close>

lemma writeBody_eq:
  "writeBody w body =
     (Done, w\<lparr>mpBuf := mpBuf w @ (if mpLastpart w then CRLF else []) @ bodyPart (mpBoundary w) body,
              mpLastpart := True\<rparr>)"
  by (simp add: writeBody_def CreatePart_def bufWrite_def bodyPart_def headerLine_def)

lemma writeAttachment_eq:
  assumes "h p = Some payload" and "mpLastpart w"
  shows "writeAttachment w (Some p) fName mType h =
     (Done, w\<lparr>mpBuf := mpBuf w @ attachmentPart (mpBoundary w) fName mType payload\<rparr>, h(p \<mapsto> []))"
  using assms
  by (simp add: writeAttachment_def CreatePart_def bufWrite_def attachmentPart_def headerLine_def)

lemma writeAttachments_eq:
  assumes "list_all2 (\<lambda>a payload. \<exists>p. fileBuf a = Some p \<and> h p = Some payload) as ps"
    and "distinct (map fileBuf as)" and "mpLastpart w"
  shows "writeAttachments as w h =
     (Done,
      w\<lparr>mpBuf := mpBuf w @ concat (map2 (\<lambda>a. attachmentPart (mpBoundary w) (fileName a) (mimeType a)) as ps)\<rparr>,
      drained as h)"
  using assms
proof (induction as arbitrary: ps w h)
  case Nil
  then show ?case by (simp add: drained_def)
next
  case (Cons a as)
  from Cons.prems(1) obtain payload ps' p where ps: "ps = payload # ps'"
    and p: "fileBuf a = Some p" "h p = Some payload"
    and tl: "list_all2 (\<lambda>a payload. \<exists>p. fileBuf a = Some p \<and> h p = Some payload) as ps'"
    by (auto simp: list_all2_Cons1)
  let ?w = "w\<lparr>mpBuf := mpBuf w @ attachmentPart (mpBoundary w) (fileName a) (mimeType a) payload\<rparr>"
  let ?h = "h(p \<mapsto> [])"
  have step: "writeAttachment w (fileBuf a) (fileName a) (mimeType a) h = (Done, ?w, ?h)"
    using p Cons.prems by (simp add: writeAttachment_eq)
  have notin: "Some p \<notin> fileBuf ` set as"
    using Cons.prems(2) p by auto
  have rest: "list_all2 (\<lambda>a payload. \<exists>p. fileBuf a = Some p \<and> ?h p = Some payload) as ps'"
    using tl notin by (induction as ps' rule: list_all2_induct) auto
  have "writeAttachments as ?w ?h =
     (Done,
      ?w\<lparr>mpBuf := mpBuf ?w @ concat (map2 (\<lambda>a. attachmentPart (mpBoundary ?w) (fileName a) (mimeType a)) as ps')\<rparr>,
      drained as ?h)"
    using Cons.prems by (intro Cons.IH rest) simp_all
  moreover have "drained as ?h = drained (a # as) h"
    using p by (auto simp: drained_def fun_eq_iff)
  ultimately show ?case
    by (simp add: step ps)
qed

lemma buildMessage_eq:
  assumes "list_all2 (\<lambda>a payload. \<exists>p. fileBuf a = Some p \<and> h p = Some payload) as ps"
    and "distinct (map fileBuf as)"
  shows "buildMessage rnd ks from to subject body as h =
     (Done,
      \<lparr>mpBuf = headerBlock ks from to subject (randomBoundary rnd)
               @ bodyPart (randomBoundary rnd) body
               @ concat (map2 (\<lambda>a. attachmentPart (randomBoundary rnd) (fileName a) (mimeType a)) as ps),
       mpBoundary = randomBoundary rnd, mpLastpart = True\<rparr>,
      drained as h)"
  using assms
  by (simp add: buildMessage_def writeBody_eq writeAttachments_eq NewWriter_def bufWrite_def
      headerBlock_def Let_def)

lemma firstError_None: "firstError rs = None \<longleftrightarrow> (\<forall>r\<in>set rs. r = None)"
  by (induction rs rule: firstError.induct) auto

lemma SendEmail_eq:
  assumes "list_all2 (\<lambda>a payload. \<exists>p. fileBuf a = Some p \<and> heap w p = Some payload) as ps"
    and "distinct (map fileBuf as)"
    and "\<forall>stage. smtp E (smtpServer @ '':'' @ port) to stage = None"
  shows "SendEmail E smtpServer port username password from to subject body as w =
     (Done,
      w\<lparr>events := events w @
           [EvPrepare to,
            EvData (smtpServer @ '':'' @ port) from to
              (headerBlock (mapOrder E (prepared w)) from to subject (randomBoundary (randRead E (prepared w)))
               @ bodyPart (randomBoundary (randRead E (prepared w))) body
               @ concat (map2 (\<lambda>a. attachmentPart (randomBoundary (randRead E (prepared w)))
                                     (fileName a) (mimeType a)) as ps))],
         prepared := prepared w + 1,
         heap := drained as (heap w)\<rparr>)"
proof -
  have fe: "firstError (map (smtp E (smtpServer @ '':'' @ port) to)
              [Dial, NewClient, Auth, Mail, Rcpt, Data]) = None"
    using assms(3) by (simp add: firstError_None)
  show ?thesis
    unfolding SendEmail_def
    using assms(3) by (simp add: buildMessage_eq[OF assms(1,2)] fe Let_def)
qed

lemma SendEmail_heap:
  assumes "list_all2 (\<lambda>a payload. \<exists>p. fileBuf a = Some p \<and> heap w p = Some payload) as ps"
    and "distinct (map fileBuf as)"
  shows "heap (snd (SendEmail E smtpServer port username password from to subject body as w))
           = drained as (heap w)"
  unfolding SendEmail_def
  by (simp add: buildMessage_eq[OF assms] Let_def split: option.splits)

text \<open>
  Claim C2 fails on the code. A call of \<open>SendEmail\<close> with one attachment whose buffer
  holds the two bytes \<^verbatim>\<open>PK\<close> returns \<^verbatim>\<open>nil\<close>, and afterwards the buffer holds no bytes:
  \<^verbatim>\<open>io.Copy\<close> has read it to its end. (The fields of the \<open>Attachment\<close> value itself are
  not changed; the buffer behind its pointer is.)
\<close>

theorem SendEmail_drains_buffer:
  "heap exAttWorld 0 = Some ''PK''
   \<and> fst (SendEmail exEnv ''smtp.example.com'' ''465'' ''mailer'' ''secret''
            ''sender@example.com'' ''first@example.com'' ''SUBJECT'' ''CONTENT''
            [exAttachment] exAttWorld) = Done
   \<and> heap (snd (SendEmail exEnv ''smtp.example.com'' ''465'' ''mailer'' ''secret''
            ''sender@example.com'' ''first@example.com'' ''SUBJECT'' ''CONTENT''
            [exAttachment] exAttWorld)) 0 = Some []"
proof -
  have a: "list_all2 (\<lambda>a payload. \<exists>p. fileBuf a = Some p \<and> heap exAttWorld p = Some payload)
             [exAttachment] [''PK'']"
    by (simp add: exAttachment_def exAttWorld_def)
  have d: "distinct (map fileBuf [exAttachment])"
    by simp
  have s: "\<forall>stage. smtp exEnv (''smtp.example.com'' @ '':'' @ ''465'') ''first@example.com'' stage = None"
    by (simp add: exEnv_def)
  show ?thesis
    by (simp add: SendEmail_eq[OF a d s] drained_def)
       (simp add: exAttachment_def exAttWorld_def)
qed

lemma writeAttachment_appends:
  "writeAttachment w a fName mType h = (st, w', h') \<Longrightarrow> \<exists>more. mpBuf w' = mpBuf w @ more"
  by (auto simp: writeAttachment_def CreatePart_def bufWrite_def Let_def split: option.splits)

lemma writeAttachments_appends:
  "writeAttachments as w h = (st, w', h') \<Longrightarrow> \<exists>more. mpBuf w' = mpBuf w @ more"
proof (induction as arbitrary: w h)
  case Nil
  then show ?case by simp
next
  case (Cons a as)
  obtain st1 w1 h1 where one: "writeAttachment w (fileBuf a) (fileName a) (mimeType a) h = (st1, w1, h1)"
    by (metis prod_cases3)
  from writeAttachment_appends[OF one] obtain m1 where m1: "mpBuf w1 = mpBuf w @ m1"
    by blast
  show ?case
  proof (cases "st1 = Done")
    case True
    with Cons.prems one have "writeAttachments as w1 h1 = (st, w', h')"
      by simp
    from Cons.IH[OF this] obtain m2 where "mpBuf w' = mpBuf w1 @ m2"
      by blast
    with m1 show ?thesis by simp
  next
    case False
    with Cons.prems one have "w' = w1"
      by (cases st1) auto
    with m1 show ?thesis by blast
  qed
qed

lemma buildMessage_starts:
  "\<exists>more. mpBuf (fst (snd (buildMessage rnd ks from to subject body as h)))
            = headerBlock ks from to subject (randomBoundary rnd)
              @ ''--'' @ randomBoundary rnd @ CRLF @ more"
proof -
  let ?w = "\<lparr>mpBuf = headerBlock ks from to subject (randomBoundary rnd) @ bodyPart (randomBoundary rnd) body,
             mpBoundary = randomBoundary rnd, mpLastpart = True\<rparr>"
  obtain st w' h' where r: "writeAttachments as ?w h = (st, w', h')"
    by (metis prod_cases3)
  from writeAttachments_appends[OF r] obtain more where "mpBuf w' = mpBuf ?w @ more"
    by blast
  moreover have "buildMessage rnd ks from to subject body as h = (st, w', h')"
    using r by (simp add: buildMessage_def writeBody_eq NewWriter_def bufWrite_def headerBlock_def Let_def)
  ultimately show ?thesis
    by (simp add: bodyPart_def)
qed

lemma rangeHeaders_lines:
  assumes "distinct (map fst headers)" and "distinct ks" and "set ks = fst ` set headers"
  shows "\<exists>kvs. rangeHeaders ks headers = concat (map headerLine kvs)
               \<and> map fst kvs = ks \<and> set kvs = set headers \<and> distinct kvs"
proof -
  have look: "\<And>k. k \<in> set ks \<Longrightarrow> \<exists>v. map_of headers k = Some v"
    using assms(3) by (metis domD dom_map_of_conv_image_fst)
  define kvs where "kvs = map (\<lambda>k. (k, the (map_of headers k))) ks"
  have "rangeHeaders ks headers = concat (map headerLine kvs)"
    unfolding rangeHeaders_def kvs_def map_map comp_def
    by (rule arg_cong[where f = concat], rule map_cong) (auto dest: look)
  moreover have "map fst kvs = ks"
    by (simp add: kvs_def comp_def)
  moreover have "set kvs = set headers"
  proof
    show "set kvs \<subseteq> set headers"
    proof
      fix kv assume "kv \<in> set kvs"
      then obtain k where k: "k \<in> set ks" "kv = (k, the (map_of headers k))"
        by (auto simp: kvs_def)
      from look[OF k(1)] obtain v where "map_of headers k = Some v"
        by blast
      with k show "kv \<in> set headers"
        by (auto dest: map_of_SomeD)
    qed
    show "set headers \<subseteq> set kvs"
    proof
      fix kv assume kv: "kv \<in> set headers"
      then have "map_of headers (fst kv) = Some (snd kv)"
        using assms(1) by simp
      moreover have "fst kv \<in> set ks"
        using kv assms(3) by auto
      ultimately show "kv \<in> set kvs"
        unfolding kvs_def by (force simp: image_iff)
    qed
  qed
  moreover have "distinct kvs"
    using assms(2) by (simp add: kvs_def distinct_map inj_on_def)
  ultimately show ?thesis by blast
qed

lemma linesCRLF_line:
  "\<not> sublist CRLF l \<Longrightarrow> linesCRLF (l @ CRLF @ rest) = l # linesCRLF rest"
proof (induction l)
  case Nil
  show ?case by (simp add: CRLF_def CR_def LF_def)
next
  case (Cons c l)
  from Cons.prems have nl: "\<not> sublist CRLF l" and np: "\<not> prefix CRLF (c # l)"
    by (auto simp: sublist_Cons_right)
  obtain d cs where dc: "l @ CRLF @ rest = d # cs"
    by (cases l) (auto simp: CRLF_def)
  have nb: "\<not> (c = CHR 0x0D \<and> d = CHR 0x0A)"
    using np dc by (cases l) (auto simp: CRLF_def CR_def LF_def)
  have a: "linesCRLF (d # cs) = l # linesCRLF rest"
    using Cons.IH[OF nl] dc by simp
  have "linesCRLF (c # d # cs) = (c # l) # linesCRLF rest"
    using nb a by auto
  then show ?case
    using dc by simp
qed

lemma linesCRLF_lines:
  "\<forall>l\<in>set ls. \<not> sublist CRLF l \<Longrightarrow>
     linesCRLF (concat (map (\<lambda>l. l @ CRLF) ls) @ rest) = ls @ linesCRLF rest"
  by (induction ls) (simp_all add: linesCRLF_line)

lemma no_break_append:
  "CR \<notin> set a \<Longrightarrow> \<not> sublist CRLF v \<Longrightarrow> \<not> sublist CRLF (a @ v)"
  by (induction a) (auto simp: sublist_Cons_right CRLF_def)


lemma no_CR_no_break: "CR \<notin> set a \<Longrightarrow> \<not> sublist CRLF a"
  using no_break_append[of a "[]"] by (simp add: CRLF_def)

lemma CR_not_boundary: "CR \<notin> set (randomBoundary rnd)"
proof
  assume "CR \<in> set (randomBoundary rnd)"
  then have "CR \<in> set lowerhex"
    using set_randomBoundary by blast
  then show False
    by (simp add: lowerhex_def CR_def)
qed

lemma header_lines:
  assumes "distinct ks"
    and "set ks = {''From'', ''To'', ''Subject'', ''MIME-Version'', ''Content-Type''}"
  shows "\<exists>ls. rangeHeaders ks (topHeaders from to subject B) = concat (map (\<lambda>l. l @ CRLF) ls)
            \<and> distinct ls
            \<and> set ls = {''From: '' @ from, ''To: '' @ to, ''Subject: '' @ subject,
                         ''MIME-Version: 1.0'', ''Content-Type: multipart/mixed; boundary='' @ B}
            \<and> map (takeWhile (\<lambda>c. c \<noteq> CHR '':'')) ls = ks"
proof -
  let ?H = "topHeaders from to subject B"
  let ?f = "\<lambda>kv::string \<times> string. fst kv @ '': '' @ snd kv"
  have d: "distinct (map fst ?H)"
    by (simp add: topHeaders_def)
  have k: "set ks = fst ` set ?H"
    using assms(2) by (auto simp: topHeaders_def)
  from rangeHeaders_lines[OF d assms(1) k] obtain kvs where
    r: "rangeHeaders ks ?H = concat (map headerLine kvs)" and
    f: "map fst kvs = ks" and s: "set kvs = set ?H" and dk: "distinct kvs"
    by blast
  have "map headerLine kvs = map (\<lambda>l. l @ CRLF) (map ?f kvs)"
    by (simp add: headerLine_def)
  with r have 1: "rangeHeaders ks ?H = concat (map (\<lambda>l. l @ CRLF) (map ?f kvs))"
    by simp
  have "inj_on ?f (set ?H)"
    by (simp add: topHeaders_def)
  with dk s have 2: "distinct (map ?f kvs)"
    by (simp add: distinct_map)
  have "set (map ?f kvs) = ?f ` set ?H"
    using s by simp
  then have 3: "set (map ?f kvs) = {''From: '' @ from, ''To: '' @ to, ''Subject: '' @ subject,
                         ''MIME-Version: 1.0'', ''Content-Type: multipart/mixed; boundary='' @ B}"
    by (simp add: topHeaders_def)
  have "\<forall>kv\<in>set kvs. takeWhile (\<lambda>c. c \<noteq> CHR '':'') (?f kv) = fst kv"
    unfolding s by (simp add: topHeaders_def)
  then have "map (takeWhile (\<lambda>c. c \<noteq> CHR '':'')) (map ?f kvs) = map fst kvs"
    by simp
  with f have 4: "map (takeWhile (\<lambda>c. c \<noteq> CHR '':'')) (map ?f kvs) = ks"
    by simp
  from 1 2 3 4 show ?thesis
    by blast
qed

text \<open>
  Claim C10. Let \<open>ks\<close> be the order in which the runtime visits the five keys of the
  header map (each key once), and let the sender, the recipient and the subject
  contain no line break CR LF. Then the buffer begins with five lines, each ended by
  CR LF, then one empty line, then the delimiter line of the first part. The five
  lines are \<^verbatim>\<open>From: \<close> with the sender, \<^verbatim>\<open>To: \<close> with the recipient, \<^verbatim>\<open>Subject: \<close> with the
  subject, \<^verbatim>\<open>MIME-Version: 1.0\<close>, and \<^verbatim>\<open>Content-Type: multipart/mixed; boundary=\<close> with
  the boundary, each once, in the order \<open>ks\<close> of their keys; a reader that splits the
  buffer at the line breaks finds exactly these lines before the empty one. The order
  is not fixed: for the same arguments, an order that begins with From and one that
  begins with To give different buffers.
\<close>

theorem header_block_lines:
  assumes "distinct ks"
    and "set ks = {''From'', ''To'', ''Subject'', ''MIME-Version'', ''Content-Type''}"
    and "\<not> sublist CRLF from" and "\<not> sublist CRLF to" and "\<not> sublist CRLF subject"
  shows "(\<exists>ls more.
            mpBuf (fst (snd (buildMessage rnd ks from to subject body as h)))
              = concat (map (\<lambda>l. l @ CRLF) ls) @ CRLF @ ''--'' @ randomBoundary rnd @ CRLF @ more
          \<and> distinct ls
          \<and> set ls = {''From: '' @ from, ''To: '' @ to, ''Subject: '' @ subject,
                       ''MIME-Version: 1.0'',
                       ''Content-Type: multipart/mixed; boundary='' @ randomBoundary rnd}
          \<and> map (takeWhile (\<lambda>c. c \<noteq> CHR '':'')) ls = ks
          \<and> linesCRLF (mpBuf (fst (snd (buildMessage rnd ks from to subject body as h))))
              = ls @ [[], ''--'' @ randomBoundary rnd] @ linesCRLF more)
       \<and> mpBuf (fst (snd (buildMessage rnd
                  [''From'', ''To'', ''Subject'', ''MIME-Version'', ''Content-Type'']
                  from to subject body as h)))
          \<noteq> mpBuf (fst (snd (buildMessage rnd
                  [''To'', ''From'', ''Subject'', ''MIME-Version'', ''Content-Type'']
                  from to subject body as h)))"
proof (intro conjI)
  let ?B = "randomBoundary rnd"
  let ?buf = "mpBuf (fst (snd (buildMessage rnd ks from to subject body as h)))"
  from buildMessage_starts obtain more where
    b: "?buf = headerBlock ks from to subject ?B @ ''--'' @ ?B @ CRLF @ more"
    by blast
  from header_lines[OF assms(1,2)] obtain ls where
    r: "rangeHeaders ks (topHeaders from to subject ?B) = concat (map (\<lambda>l. l @ CRLF) ls)" and
    d: "distinct ls" and
    s: "set ls = {''From: '' @ from, ''To: '' @ to, ''Subject: '' @ subject,
                  ''MIME-Version: 1.0'', ''Content-Type: multipart/mixed; boundary='' @ ?B}" and
    k: "map (takeWhile (\<lambda>c. c \<noteq> CHR '':'')) ls = ks"
    by blast
  from b r have e: "?buf = concat (map (\<lambda>l. l @ CRLF) ls) @ CRLF @ ''--'' @ ?B @ CRLF @ more"
    by (simp add: headerBlock_def)
  have l1: "\<not> sublist CRLF (''From: '' @ from)"
    by (rule no_break_append) (simp_all add: CR_def assms(3))
  have l2: "\<not> sublist CRLF (''To: '' @ to)"
    by (rule no_break_append) (simp_all add: CR_def assms(4))
  have l3: "\<not> sublist CRLF (''Subject: '' @ subject)"
    by (rule no_break_append) (simp_all add: CR_def assms(5))
  have l4: "\<not> sublist CRLF ''MIME-Version: 1.0''"
    by (rule no_CR_no_break) (simp add: CR_def)
  have l5: "\<not> sublist CRLF (''Content-Type: multipart/mixed; boundary='' @ ?B)"
    by (rule no_CR_no_break) (use CR_not_boundary[of rnd] in \<open>simp add: CR_def\<close>)
  have nb: "\<forall>l\<in>set ls. \<not> sublist CRLF l"
    unfolding s using l1 l2 l3 l4 l5 by simp
  have nd: "\<not> sublist CRLF (''--'' @ ?B)"
    by (rule no_CR_no_break) (use CR_not_boundary[of rnd] in \<open>simp add: CR_def\<close>)
  have "linesCRLF ?buf = ls @ linesCRLF (CRLF @ (''--'' @ ?B) @ CRLF @ more)"
    unfolding e by (simp add: linesCRLF_lines[OF nb])
  also have "linesCRLF (CRLF @ (''--'' @ ?B) @ CRLF @ more) = [] # linesCRLF ((''--'' @ ?B) @ CRLF @ more)"
    using linesCRLF_line[of "[]"] by (simp add: CRLF_def)
  also have "linesCRLF ((''--'' @ ?B) @ CRLF @ more) = (''--'' @ ?B) # linesCRLF more"
    by (rule linesCRLF_line[OF nd])
  finally have l: "linesCRLF ?buf = ls @ [[], ''--'' @ ?B] @ linesCRLF more"
    by simp
  from e d s k l
  show "\<exists>ls more.
            ?buf = concat (map (\<lambda>l. l @ CRLF) ls) @ CRLF @ ''--'' @ ?B @ CRLF @ more
          \<and> distinct ls
          \<and> set ls = {''From: '' @ from, ''To: '' @ to, ''Subject: '' @ subject,
                       ''MIME-Version: 1.0'', ''Content-Type: multipart/mixed; boundary='' @ ?B}
          \<and> map (takeWhile (\<lambda>c. c \<noteq> CHR '':'')) ls = ks
          \<and> linesCRLF ?buf = ls @ [[], ''--'' @ ?B] @ linesCRLF more"
    by blast
next
  let ?B = "randomBoundary rnd"
  let ?k1 = "[''From'', ''To'', ''Subject'', ''MIME-Version'', ''Content-Type'']"
  let ?k2 = "[''To'', ''From'', ''Subject'', ''MIME-Version'', ''Content-Type'']"
  from buildMessage_starts obtain m1 where
    b1: "mpBuf (fst (snd (buildMessage rnd ?k1 from to subject body as h)))
          = headerBlock ?k1 from to subject ?B @ ''--'' @ ?B @ CRLF @ m1"
    by blast
  from buildMessage_starts obtain m2 where
    b2: "mpBuf (fst (snd (buildMessage rnd ?k2 from to subject body as h)))
          = headerBlock ?k2 from to subject ?B @ ''--'' @ ?B @ CRLF @ m2"
    by blast
  show "mpBuf (fst (snd (buildMessage rnd ?k1 from to subject body as h)))
          \<noteq> mpBuf (fst (snd (buildMessage rnd ?k2 from to subject body as h)))"
    unfolding b1 b2
    by (simp add: headerBlock_def rangeHeaders_def topHeaders_def headerLine_def)
qed

theorem header_block_lines_witness:
  "distinct (mapOrder exEnv 1)
   \<and> set (mapOrder exEnv 1) = {''From'', ''To'', ''Subject'', ''MIME-Version'', ''Content-Type''}
   \<and> \<not> sublist CRLF ''a@x'' \<and> \<not> sublist CRLF ''b@y'' \<and> \<not> sublist CRLF ''Hi''
   \<and> (\<exists>ls more.
            mpBuf (fst (snd (buildMessage ''0'' (mapOrder exEnv 1) ''a@x'' ''b@y'' ''Hi'' ''CONTENT'' [] Map.empty)))
              = concat (map (\<lambda>l. l @ CRLF) ls) @ CRLF @ ''--'' @ randomBoundary ''0'' @ CRLF @ more
          \<and> distinct ls
          \<and> set ls = {''From: '' @ ''a@x'', ''To: '' @ ''b@y'', ''Subject: '' @ ''Hi'',
                       ''MIME-Version: 1.0'',
                       ''Content-Type: multipart/mixed; boundary='' @ randomBoundary ''0''}
          \<and> map (takeWhile (\<lambda>c. c \<noteq> CHR '':'')) ls = mapOrder exEnv 1
          \<and> linesCRLF (mpBuf (fst (snd (buildMessage ''0'' (mapOrder exEnv 1) ''a@x'' ''b@y'' ''Hi'' ''CONTENT'' [] Map.empty))))
              = ls @ [[], ''--'' @ randomBoundary ''0''] @ linesCRLF more)"
proof -
  have d: "distinct (mapOrder exEnv 1)"
    by (simp add: exEnv_def)
  have s: "set (mapOrder exEnv 1) = {''From'', ''To'', ''Subject'', ''MIME-Version'', ''Content-Type''}"
    by (auto simp: exEnv_def)
  have n1: "\<not> sublist CRLF ''a@x''" and n2: "\<not> sublist CRLF ''b@y''" and n3: "\<not> sublist CRLF ''Hi''"
    by (simp_all add: sublist_Cons_right CRLF_def CR_def)
  from header_block_lines[OF d s n1 n2 n3, of "''0''" "''CONTENT''" "[]" Map.empty,
      THEN conjunct1]
  show ?thesis using d s n1 n2 n3 by (intro conjI)
qed

text \<open>
  A subject that contains a line break: the configuration gives the subject
  \<^verbatim>\<open>Hi\<close>, CR, LF, \<^verbatim>\<open>To: c@z\<close>. The buffer then has six lines before the empty one, two
  of them with the key To.
\<close>

theorem header_value_with_line_break:
  "take 8 (linesCRLF (mpBuf (fst (snd (buildMessage exZeroRnd
        [''From'', ''To'', ''Subject'', ''MIME-Version'', ''Content-Type'']
        ''a@x'' ''b@y'' (''Hi'' @ [CHR 0x0D, CHR 0x0A] @ ''To: c@z'') ''CONTENT'' [] Map.empty)))))
   = [''From: a@x'', ''To: b@y'', ''Subject: Hi'', ''To: c@z'', ''MIME-Version: 1.0'',
      ''Content-Type: multipart/mixed; boundary=000000000000000000000000000000000000000000000000000000000000'',
      [],
      ''--000000000000000000000000000000000000000000000000000000000000'']"
  by code_simp

section \<open>Properties of the job\<close>


lemma exportTableToExcel_frame:
  assumes "exportTableToExcel E t w = (b, err, w')"
  shows "prepared w' = prepared w \<and> (\<exists>qs. events w' = events w @ map EvQuery qs)"
proof -
  have "events w' = events w @ map EvQuery [] \<or> events w' = events w @ map EvQuery [''SELECT * FROM '' @ t]"
    using assms
    by (auto simp: exportTableToExcel_def Let_def split: option.splits sum.splits)
  moreover have "prepared w' = prepared w"
    using assms
    by (auto simp: exportTableToExcel_def Let_def split: option.splits sum.splits)
  ultimately show ?thesis by blast
qed

lemma exportAttachments_frame:
  "exportAttachments E acs atts w = (r, w') \<Longrightarrow>
     prepared w' = prepared w \<and> (\<exists>qs. events w' = events w @ map EvQuery qs)"
proof (induction acs arbitrary: atts w)
  case Nil
  then have "events w' = events w @ map EvQuery []" and "prepared w' = prepared w"
    by simp_all
  then show ?case by blast
next
  case (Cons ac acs)
  obtain b err w1 where one: "exportTableToExcel E (taTable ac) w = (b, err, w1)"
    by (metis prod_cases3)
  from exportTableToExcel_frame[OF one] obtain qs1 where
    f1: "prepared w1 = prepared w" "events w1 = events w @ map EvQuery qs1"
    by blast
  show ?case
  proof (cases err)
    case (Some e)
    with Cons.prems one have "w' = w1" by simp
    with f1 show ?thesis by blast
  next
    case None
    with Cons.prems one have
      "exportAttachments E acs
         (atts @ [\<lparr>fileName = taExcel ac, mimeType = xlsxMime, fileBuf = b\<rparr>]) w1 = (r, w')"
      by simp
    from Cons.IH[OF this] obtain qs2 where
      "prepared w' = prepared w1" "events w' = events w1 @ map EvQuery qs2"
      by blast
    with f1 have "prepared w' = prepared w" "events w' = events w @ map EvQuery (qs1 @ qs2)"
      by simp_all
    then show ?thesis by blast
  qed
qed

lemma exportAttachments_append:
  "exportAttachments E (acs1 @ acs2) atts w =
     (case exportAttachments E acs1 atts w of
        (Inl e, w') \<Rightarrow> (Inl e, w')
      | (Inr atts', w') \<Rightarrow> exportAttachments E acs2 atts' w')"
proof (induction acs1 arbitrary: atts w)
  case Nil
  then show ?case by simp
next
  case (Cons ac acs1)
  obtain b err w1 where one: "exportTableToExcel E (taTable ac) w = (b, err, w1)"
    by (metis prod_cases3)
  show ?case
    by (cases err) (simp_all add: one Cons.IH)
qed

lemma runPosts_append:
  "runPosts E config (ps1 @ ps2) w =
     (case runPosts E config ps1 w of
        (Done, w') \<Rightarrow> runPosts E config ps2 w'
      | (Failed e, w') \<Rightarrow> (Failed e, w')
      | (Panicked, w') \<Rightarrow> (Panicked, w'))"
proof (induction ps1 arbitrary: w)
  case Nil
  then show ?case by simp
next
  case (Cons p ps1)
  show ?case
    by (simp add: Cons.IH split: prod.splits sum.splits status.splits)
qed

text \<open>
  Claim C6. Suppose the posts before \<open>post\<close> run to their end, and in \<open>post\<close> the
  export of some table fails after the exports of the attachments before it have
  succeeded. Then the run ends there with that error: the final world is the one in
  which the failing export returned, whatever attachments, recipients and posts come
  after it; since the posts before \<open>post\<close> ended, no message has been prepared and
  nothing has happened but queries.
\<close>

theorem export_failure_stops_run:
  assumes "createDMDB E (dbUsername (cfgDB config)) (dbPassword (cfgDB config))
             (dbHost (cfgDB config)) (fmtInt (dbPort (cfgDB config))) = None"
    and "cfgPost config = pre @ post # rest"
    and "runPosts E config pre w = (Done, w1)"
    and "postAttachment post = acs1 @ ac # acs2"
    and "exportAttachments E acs1 [] w1 = (Inr atts, w2)"
    and "exportTableToExcel E (taTable ac) w2 = (b, Some e, w3)"
  shows "task E config w = (Failed e, w3)
       \<and> prepared w3 = prepared w1
       \<and> (\<exists>qs. events w3 = events w1 @ map EvQuery qs)"
proof -
  have ea: "exportAttachments E (postAttachment post) [] w1 = (Inl e, w3)"
    using assms(4,5,6) by (simp add: exportAttachments_append)
  then have "runPosts E config (post # rest) w1 = (Failed e, w3)"
    by simp
  then have "runPosts E config (cfgPost config) w = (Failed e, w3)"
    using assms(2,3) by (simp add: runPosts_append)
  then have t: "task E config w = (Failed e, w3)"
    using assms(1) by (simp add: task_def)
  from exportAttachments_frame[OF ea] t show ?thesis
    by blast
qed

lemma ex_export_03_after_01:
  "exportTableToExcel exEnv ''TEST_03'' exWorld1 =
     (None, Some (Err ''scan failed''),
      exWorld1\<lparr>events := [EvQuery ''SELECT * FROM TEST_01'', EvQuery ''SELECT * FROM TEST_03'']\<rparr>)"
  by (simp add: exportTableToExcel_def exEnv_def exWorld1_def exBadRows_def rowsScan_def
      cellText_def Let_def)

lemma ex_createDMDB: "createDMDB exEnv ''SYSDBA'' ''secret'' ''db.example.com'' (fmtInt 5236) = None"
  by (simp add: createDMDB_def exEnv_def fmtInt_def)

theorem export_failure_stops_run_witness:
  "cfgPost exFailConfig = [] @ exFailPost # [exPost]
   \<and> postAttachment exFailPost
       = [\<lparr>taTable = ''TEST_01'', taExcel = ''01.xlsx''\<rparr>]
         @ \<lparr>taTable = ''TEST_03'', taExcel = ''03.xlsx''\<rparr>
         # [\<lparr>taTable = ''TEST_02'', taExcel = ''02.xlsx''\<rparr>]
   \<and> task exEnv exFailConfig exWorld
       = (Failed (Err ''scan failed''),
          exWorld1\<lparr>events := [EvQuery ''SELECT * FROM TEST_01'', EvQuery ''SELECT * FROM TEST_03'']\<rparr>)
   \<and> prepared (exWorld1\<lparr>events := [EvQuery ''SELECT * FROM TEST_01'',
                                     EvQuery ''SELECT * FROM TEST_03'']\<rparr>) = prepared exWorld"
proof -
  have h1: "createDMDB exEnv (dbUsername (cfgDB exFailConfig)) (dbPassword (cfgDB exFailConfig))
             (dbHost (cfgDB exFailConfig)) (fmtInt (dbPort (cfgDB exFailConfig))) = None"
    using ex_createDMDB by (simp add: exFailConfig_def exConfig_def)
  have h2: "cfgPost exFailConfig = [] @ exFailPost # [exPost]"
    by (simp add: exFailConfig_def)
  have h3: "runPosts exEnv exFailConfig [] exWorld = (Done, exWorld)"
    by simp
  have h4: "postAttachment exFailPost
       = [\<lparr>taTable = ''TEST_01'', taExcel = ''01.xlsx''\<rparr>]
         @ \<lparr>taTable = ''TEST_03'', taExcel = ''03.xlsx''\<rparr>
         # [\<lparr>taTable = ''TEST_02'', taExcel = ''02.xlsx''\<rparr>]"
    by (simp add: exFailPost_def)
  have h5: "exportAttachments exEnv [\<lparr>taTable = ''TEST_01'', taExcel = ''01.xlsx''\<rparr>] [] exWorld
       = (Inr [\<lparr>fileName = ''01.xlsx'', mimeType = xlsxMime, fileBuf = Some 0\<rparr>], exWorld1)"
    by (simp add: ex_export_01)
  have h6: "exportTableToExcel exEnv (taTable \<lparr>taTable = ''TEST_03'', taExcel = ''03.xlsx''\<rparr>) exWorld1 =
     (None, Some (Err ''scan failed''),
      exWorld1\<lparr>events := [EvQuery ''SELECT * FROM TEST_01'', EvQuery ''SELECT * FROM TEST_03'']\<rparr>)"
    by (simp add: ex_export_03_after_01)
  from export_failure_stops_run[OF h1 h2 h3 h4 h5 h6] h2 h4 show ?thesis
    by simp
qed










section \<open>The encoders and their decoders\<close>

lemma distinct_encodeStd: "distinct encodeStd"
  by (simp add: encodeStd_def)

lemma b64val_b64char: "i < 64 \<Longrightarrow> b64val (b64char i) = Some i"
proof -
  assume i: "i < 64"
  have "map_of (zip encodeStd [0..<64]) (encodeStd ! i) = Some ([0..<64] ! i)"
    using i by (intro map_of_zip_nth) (simp_all add: length_encodeStd distinct_encodeStd)
  then show ?thesis
    using i by (simp add: b64val_def b64char_def)
qed

lemma b64char_not_pad: "b64char i \<noteq> CHR ''=''"
proof -
  have "CHR ''='' \<notin> set encodeStd"
    by (simp add: encodeStd_def)
  then show ?thesis
    using b64char_in[of i] by metis
qed

lemma sextet1: "(A::nat) < 256 \<Longrightarrow> A div 4 < 64"
  by (simp add: less_mult_imp_div_less)

lemma sextet2: "(B::nat) < 256 \<Longrightarrow> A mod 4 * 16 + B div 16 < 64"
proof -
  assume "B < 256"
  then have "B div 16 < 16" by (simp add: less_mult_imp_div_less)
  moreover have "A mod 4 \<le> 3" using mod_less_divisor[of 4 A] by linarith
  ultimately show ?thesis by linarith
qed

lemma sextet3: "(C::nat) < 256 \<Longrightarrow> B mod 16 * 4 + C div 64 < 64"
proof -
  assume "C < 256"
  then have "C div 64 < 4" by (simp add: less_mult_imp_div_less)
  moreover have "B mod 16 \<le> 15" using mod_less_divisor[of 16 B] by linarith
  ultimately show ?thesis by linarith
qed

lemma octet1: "B < 256 \<Longrightarrow> (A::nat) div 4 * 4 + (A mod 4 * 16 + B div 16) div 16 = A"
  by (simp add: div_mult2_eq[symmetric])

lemma octet2:
  "B < 256 \<Longrightarrow> C < 256 \<Longrightarrow>
     (A mod 4 * 16 + (B::nat) div 16) mod 16 * 16 + (B mod 16 * 4 + C div 64) div 4 = B"
proof -
  assume b: "B < 256" and c: "C < 256"
  have 1: "(A mod 4 * 16 + B div 16) mod 16 = B div 16"
    using b by (simp add: div_mult2_eq[symmetric] less_mult_imp_div_less)
  have 2: "(B mod 16 * 4 + C div 64) div 4 = B mod 16"
    using c by (simp add: div_mult2_eq[symmetric])
  show ?thesis unfolding 1 2 by simp
qed

lemma octet3: "C < 256 \<Longrightarrow> ((B::nat) mod 16 * 4 + C div 64) mod 4 * 64 + C mod 64 = C"
proof -
  assume c: "C < 256"
  have "(B mod 16 * 4 + C div 64) mod 4 = C div 64"
    using c by (simp add: less_mult_imp_div_less)
  then show ?thesis by simp
qed

lemma base64Encode_Nil_iff: "base64Encode p = [] \<longleftrightarrow> p = []"
  by (induction p rule: base64Encode.induct) (simp_all add: Let_def)

lemma base64_roundtrip: "base64Decode (base64Encode p) = Some p"
proof (induction p rule: base64Encode.induct)
  case (1 a b c rest)
  let ?A = "of_char a :: nat" and ?B = "of_char b :: nat" and ?C = "of_char c :: nat"
  have lt: "?A < 256" "?B < 256" "?C < 256" by simp_all
  have v: "b64val (b64char (?A div 4)) = Some (?A div 4)"
    "b64val (b64char (?A mod 4 * 16 + ?B div 16)) = Some (?A mod 4 * 16 + ?B div 16)"
    "b64val (b64char (?B mod 16 * 4 + ?C div 64)) = Some (?B mod 16 * 4 + ?C div 64)"
    "b64val (b64char (?C mod 64)) = Some (?C mod 64)"
    using lt by (simp_all add: b64val_b64char sextet1 sextet2 sextet3)
  have o: "char_of (?A div 4 * 4 + (?A mod 4 * 16 + ?B div 16) div 16) = a"
    "char_of ((?A mod 4 * 16 + ?B div 16) mod 16 * 16 + (?B mod 16 * 4 + ?C div 64) div 4) = b"
    "char_of ((?B mod 16 * 4 + ?C div 64) mod 4 * 64 + ?C mod 64) = c"
    using lt by (simp_all only: octet1 octet2 octet3 char_of_char)
  show ?case
    using "1.IH" by (simp only: base64Encode.simps Let_def base64Decode.simps v o b64char_not_pad
        option.case prod.case simp_thms if_False option.map)
next
  case (2 a b)
  let ?A = "of_char a :: nat" and ?B = "of_char b :: nat"
  have lt: "?A < 256" "?B < 256" by simp_all
  have s3: "?B mod 16 * 4 < 64"
    using sextet3[of 0 ?B] by simp
  have v: "b64val (b64char (?A div 4)) = Some (?A div 4)"
    "b64val (b64char (?A mod 4 * 16 + ?B div 16)) = Some (?A mod 4 * 16 + ?B div 16)"
    "b64val (b64char (?B mod 16 * 4)) = Some (?B mod 16 * 4)"
    using lt s3 by (simp_all add: b64val_b64char sextet1 sextet2)
  have o: "char_of (?A div 4 * 4 + (?A mod 4 * 16 + ?B div 16) div 16) = a"
    "char_of ((?A mod 4 * 16 + ?B div 16) mod 16 * 16 + (?B mod 16 * 4) div 4) = b"
    using lt octet2[of ?B 0 ?A] by (simp_all only: octet1 char_of_char) simp
  show ?case
    by (simp only: base64Encode.simps Let_def base64Decode.simps v o b64char_not_pad
        option.case prod.case simp_thms if_False if_True)
next
  case (3 a)
  let ?A = "of_char a :: nat"
  have lt: "?A < 256" by simp
  have s2: "?A mod 4 * 16 < 64"
    using sextet2[of 0 ?A] by simp
  have v: "b64val (b64char (?A div 4)) = Some (?A div 4)"
    "b64val (b64char (?A mod 4 * 16)) = Some (?A mod 4 * 16)"
    using lt s2 by (simp_all add: b64val_b64char sextet1)
  have o: "char_of (?A div 4 * 4 + (?A mod 4 * 16) div 16) = a"
    by simp
  show ?case
    by (simp only: base64Encode.simps Let_def base64Decode.simps v o
        option.case prod.case simp_thms if_True)
next
  case 4
  show ?case by simp
qed

lemma CR_LF_facts [simp]:
  "CR \<noteq> CHR ''=''" "LF \<noteq> CHR ''=''" "\<not> isWhitespace CR" "\<not> isWhitespace LF"
  "\<not> isWhitespace (CHR ''='')" "CR \<noteq> LF" "CHR ''='' \<noteq> CR" "LF \<noteq> CR"
  by (simp_all add: CR_def LF_def isWhitespace_def)

lemma solidNext_Cons:
  "solidNext (c # k) \<longleftrightarrow> (if isWhitespace c then solidNext k else c \<noteq> CR)"
  by (simp add: solidNext_def)

lemma solidNext_not_trailing: "solidNext k \<Longrightarrow> \<not> trailingWs k"
  by (cases "dropWhile isWhitespace k")
     (simp_all add: solidNext_def trailingWs_def CRLF_def Let_def del: dropWhile_eq_Nil_conv)

lemma qpDecode_lit:
  "c \<noteq> CHR ''='' \<Longrightarrow> \<not> isWhitespace c \<or> solidNext k \<Longrightarrow>
     qpDecode (c # k) = map_option ((#) c) (qpDecode k)"
  by (auto simp: solidNext_not_trailing)

lemma qpDecode_soft: "qpDecode (CHR ''='' # CR # LF # k) = qpDecode k"
  by simp

lemma qpDecode_hard: "qpDecode (CR # LF # k) = map_option ((@) CRLF) (qpDecode k)"
  by (cases "qpDecode k") (simp_all add: CRLF_def)

lemma length_upperhex: "length upperhex = 16"
  by (simp add: upperhex_def)

lemma hexVal_upperhex: "i < 16 \<Longrightarrow> hexVal (upperhex ! i) = Some i"
proof -
  assume i: "i < 16"
  have "map_of (zip upperhex [0..<16]) (upperhex ! i) = Some ([0..<16] ! i)"
    using i by (intro map_of_zip_nth) (simp_all add: upperhex_def)
  then show ?thesis
    using i by (simp add: hexVal_def)
qed

lemma upperhex_solid:
  "i < 16 \<Longrightarrow> upperhex ! i \<noteq> CR \<and> upperhex ! i \<noteq> LF \<and> \<not> isWhitespace (upperhex ! i)"
proof -
  assume "i < 16"
  then have "upperhex ! i \<in> set upperhex"
    by (simp add: length_upperhex)
  moreover have "CR \<notin> set upperhex" "LF \<notin> set upperhex" "CHR '' '' \<notin> set upperhex" "CHR 0x09 \<notin> set upperhex"
    by (simp_all add: upperhex_def CR_def LF_def)
  ultimately show ?thesis
    by (metis isWhitespace_def)
qed

lemma qpDecode_enc:
  "qpDecode (CHR ''='' # upperhex ! ((of_char b :: nat) div 16) # upperhex ! ((of_char b :: nat) mod 16) # k)
     = map_option ((#) b) (qpDecode k)"
proof -
  have "char_of ((of_char b :: nat) div 16 * 16 + of_char b mod 16) = b"
    by simp
  then show ?thesis
    using upperhex_solid[OF of_char_div16[of b]]
    by (simp add: hexVal_upperhex of_char_div16)
qed

lemma endsWs_simps [simp]:
  "\<not> endsWs []" "endsWs (l @ [c]) \<longleftrightarrow> isWhitespace c"
  by (simp_all add: endsWs_def)

lemma map_option_append:
  "map_option ((@) a) (map_option ((@) b) x) = map_option ((@) (a @ b)) x"
  by (cases x) simp_all

lemma map_option_append_Cons:
  "map_option ((@) a) (map_option ((#) c) x) = map_option ((@) (a @ [c])) x"
  by (cases x) simp_all

text \<open>Steps of the writer, on the decoding invariant.\<close>

lemma qpInv0_lit:
  assumes "qpInv0 out line txt" and "c \<noteq> CHR ''=''" and "c \<noteq> CR"
  shows "qpInv0 out (line @ [c]) (txt @ [c])"
  unfolding qpInv0_def
proof (intro allI impI)
  fix k
  assume k: "endsWs (line @ [c]) \<longrightarrow> solidNext k"
  then have s: "solidNext (c # k)"
    using assms(3) by (simp add: solidNext_Cons)
  have "qpDecode (out @ line @ c # k) = map_option ((@) txt) (qpDecode (c # k))"
    using assms(1) s unfolding qpInv0_def by blast
  also have "qpDecode (c # k) = map_option ((#) c) (qpDecode k)"
    using k assms(2) by (intro qpDecode_lit) auto
  finally show "qpDecode (out @ (line @ [c]) @ k) = map_option ((@) (txt @ [c])) (qpDecode k)"
    by (simp add: map_option_append_Cons)
qed

lemma qpInv0_enc:
  assumes "qpInv0 out line txt"
  shows "qpInv0 out
           (line @ [CHR ''='', upperhex ! ((of_char b :: nat) div 16), upperhex ! ((of_char b :: nat) mod 16)])
           (txt @ [b])"
  unfolding qpInv0_def
proof (intro allI impI)
  fix k
  let ?e = "CHR ''='' # upperhex ! ((of_char b :: nat) div 16) # upperhex ! ((of_char b :: nat) mod 16) # k"
  have "solidNext ?e"
    by (simp add: solidNext_Cons)
  then have "qpDecode (out @ line @ ?e) = map_option ((@) txt) (qpDecode ?e)"
    using assms unfolding qpInv0_def by blast
  then show "qpDecode (out @ (line @ [CHR ''='', upperhex ! ((of_char b :: nat) div 16),
                 upperhex ! ((of_char b :: nat) mod 16)]) @ k)
               = map_option ((@) (txt @ [b])) (qpDecode k)"
    by (simp only: qpDecode_enc map_option_append_Cons append_assoc append_Cons append_Nil)
qed

lemma qpInv0_soft:
  assumes "qpInv0 out line txt"
  shows "qpInv0 (out @ line @ ''='' @ CRLF) [] txt"
  unfolding qpInv0_def
proof (intro allI impI)
  fix k
  have "solidNext (CHR ''='' # CR # LF # k)"
    by (simp add: solidNext_Cons)
  then have "qpDecode (out @ line @ CHR ''='' # CR # LF # k)
               = map_option ((@) txt) (qpDecode (CHR ''='' # CR # LF # k))"
    using assms unfolding qpInv0_def by blast
  then show "qpDecode ((out @ line @ ''='' @ CRLF) @ [] @ k) = map_option ((@) txt) (qpDecode k)"
    by (simp add: CRLF_def)
qed

lemma qpInv0_hard:
  assumes "qpInv0 out line txt" and "\<not> endsWs line"
  shows "qpInv0 (out @ line @ CRLF) [] (txt @ CRLF)"
  unfolding qpInv0_def
proof (intro allI impI)
  fix k
  have "qpDecode (out @ line @ CR # LF # k) = map_option ((@) txt) (qpDecode (CR # LF # k))"
    using assms unfolding qpInv0_def by blast
  then show "qpDecode ((out @ line @ CRLF) @ [] @ k) = map_option ((@) (txt @ CRLF)) (qpDecode k)"
    by (cases "qpDecode k") (simp_all add: CRLF_def)
qed

text \<open>The operations of the writer keep the invariant.\<close>

lemma insertSoftLineBreak_inv0:
  assumes "qpInv0 (qpOut w) (qpLine w) txt"
  shows "qpInv (insertSoftLineBreak w) txt \<and> qpLine (insertSoftLineBreak w) = []
         \<and> qpCr (insertSoftLineBreak w) = qpCr w"
  using qpInv0_soft[OF assms]
  by (simp add: insertSoftLineBreak_def insertCRLF_def qpFlush_def qpInv_def)

lemma qpInv_inv0: "qpInv w txt \<Longrightarrow> qpInv0 (qpOut w) (qpLine w) txt"
  by (simp add: qpInv_def)

lemma qpInv_no_ws:
  "qpInv0 (qpOut w) (qpLine w) txt \<Longrightarrow> \<not> endsWs (qpLine w) \<Longrightarrow> qpInv w txt"
  by (simp add: qpInv_def)

lemma qpEncodeByte_inv0:
  assumes "qpInv0 (qpOut w) (qpLine w) txt"
  shows "qpInv (qpEncodeByte b w) (txt @ [b]) \<and> \<not> endsWs (qpLine (qpEncodeByte b w))
         \<and> qpCr (qpEncodeByte b w) = qpCr w"
proof -
  define w1 where "w1 = (if lineMaxLen - 1 - length (qpLine w) < 3 then insertSoftLineBreak w else w)"
  have w1: "qpInv0 (qpOut w1) (qpLine w1) txt" "qpCr w1 = qpCr w"
    using assms insertSoftLineBreak_inv0[OF assms] by (auto simp: w1_def qpInv_def)
  let ?e = "[CHR ''='', upperhex ! ((of_char b :: nat) div 16), upperhex ! ((of_char b :: nat) mod 16)]"
  have e: "qpEncodeByte b w = w1\<lparr>qpLine := qpLine w1 @ ?e\<rparr>"
    by (simp add: qpEncodeByte_def w1_def Let_def)
  have nws: "\<not> endsWs (qpLine w1 @ ?e)"
    using upperhex_solid[of "(of_char b :: nat) mod 16"] by (simp add: endsWs_def)
  have "qpInv0 (qpOut w1) (qpLine w1 @ ?e) (txt @ [b])"
    by (rule qpInv0_enc[OF w1(1)])
  then show ?thesis
    using nws w1(2) by (simp add: e qpInv_def)
qed

lemma checkLastByte_inv:
  assumes "qpInv w txt"
  shows "qpInv (checkLastByte w) txt \<and> \<not> endsWs (qpLine (checkLastByte w))
         \<and> qpCr (checkLastByte w) = qpCr w"
proof (cases "endsWs (qpLine w)")
  case False
  then have "checkLastByte w = w"
    by (auto simp: checkLastByte_def endsWs_def Let_def)
  with assms False show ?thesis by simp
next
  case True
  then have c: "checkLastByte w = qpEncodeByte (last (qpLine w)) (w\<lparr>qpLine := butlast (qpLine w)\<rparr>)"
    by (simp add: checkLastByte_def endsWs_def Let_def)
  from assms True have t: "txt \<noteq> []" "last txt = last (qpLine w)"
    and i: "qpInv0 (qpOut w) (butlast (qpLine w)) (butlast txt)"
    by (simp_all add: qpInv_def)
  let ?w = "w\<lparr>qpLine := butlast (qpLine w)\<rparr>"
  have "qpInv0 (qpOut ?w) (qpLine ?w) (butlast txt)"
    using i by simp
  moreover have "butlast txt @ [last (qpLine w)] = txt"
    using t by (metis append_butlast_last_id)
  ultimately show ?thesis
    using qpEncodeByte_inv0[of ?w "butlast txt" "last (qpLine w)"] by (simp add: c)
qed

lemma insertCRLF_inv:
  assumes "qpInv0 (qpOut w) (qpLine w) txt" and "\<not> endsWs (qpLine w)"
  shows "qpInv (insertCRLF w) (txt @ CRLF) \<and> qpCr (insertCRLF w) = qpCr w"
  using qpInv0_hard[OF assms]
  by (simp add: insertCRLF_def qpFlush_def qpInv_def)

lemma qpSimple_lit: "qpSimple b \<Longrightarrow> b \<noteq> LF \<Longrightarrow> b \<noteq> CR \<Longrightarrow> b \<noteq> CHR ''=''"
  by (auto simp: qpSimple_def isWhitespace_def)

lemma qpInv_cr: "qpInv (w\<lparr>qpCr := c\<rparr>) txt = qpInv w txt"
  by (simp add: qpInv_def)

lemma qpWriteByte_break:
  assumes "qpInv w txt" and "b = LF \<or> b = CR"
  shows "qpInv (qpWriteByte b w) (txt @ (if qpCr w \<and> b = LF then [] else CRLF))
         \<and> qpCr (qpWriteByte b w) = (b = CR)"
proof (cases "qpCr w \<and> b = LF")
  case True
  then show ?thesis
    using assms by (simp add: qpWriteByte_def qpInv_cr)
next
  case False
  let ?w = "if b = CR then w\<lparr>qpCr := True\<rparr> else w"
  have i: "qpInv ?w txt" and cr: "qpCr ?w = (b = CR)"
    using assms False by (auto simp: qpInv_cr)
  from checkLastByte_inv[OF i] have
    c: "qpInv (checkLastByte ?w) txt" "\<not> endsWs (qpLine (checkLastByte ?w))"
       "qpCr (checkLastByte ?w) = qpCr ?w"
    by simp_all
  have e: "qpWriteByte b w = insertCRLF (checkLastByte ?w)"
    using False assms(2) by (auto simp: qpWriteByte_def)
  have "qpInv (insertCRLF (checkLastByte ?w)) (txt @ CRLF)"
    and "qpCr (insertCRLF (checkLastByte ?w)) = (b = CR)"
    using insertCRLF_inv[OF qpInv_inv0[OF c(1)] c(2)] c(3) cr by simp_all
  then show ?thesis
    unfolding e using False by (simp only: if_False simp_thms)
qed

lemma qpWriteByte_literal:
  assumes "qpInv w txt" and "b \<noteq> LF" and "b \<noteq> CR" and "b \<noteq> CHR ''=''"
  shows "qpInv (qpWriteByte b w) (txt @ [b]) \<and> qpCr (qpWriteByte b w) = False"
proof -
  define w1 where "w1 = (if length (qpLine w) = lineMaxLen - 1 then insertSoftLineBreak w else w)"
  have w1: "qpInv0 (qpOut w1) (qpLine w1) txt"
    using assms(1) insertSoftLineBreak_inv0[OF qpInv_inv0[OF assms(1)]]
    by (auto simp: w1_def qpInv_def)
  have e: "qpWriteByte b w = w1\<lparr>qpLine := qpLine w1 @ [b], qpCr := False\<rparr>"
    using assms(2,3) by (simp add: qpWriteByte_def w1_def Let_def)
  have "qpInv0 (qpOut w1) (qpLine w1 @ [b]) (txt @ [b])"
    by (rule qpInv0_lit[OF w1 assms(4) assms(3)])
  then show ?thesis
    using w1 by (simp add: e qpInv_def)
qed

lemma qpWrite_inv:
  "qpInv w t \<Longrightarrow> qpInv (qpWrite bs w) (t @ qpText (qpCr w) bs)"
proof (induction bs arbitrary: w t)
  case Nil
  then show ?case by simp
next
  case (Cons b bs)
  show ?case
  proof (cases "qpSimple b")
    case False
    then have nb: "b \<noteq> CR" "b \<noteq> LF"
      by (auto simp: qpSimple_def)
    from qpEncodeByte_inv0[OF qpInv_inv0[OF Cons.prems], of b]
    have "qpInv (qpEncodeByte b w) (t @ [b])" "qpCr (qpEncodeByte b w) = qpCr w"
      by simp_all
    from Cons.IH[OF this(1)] this(2) show ?thesis
      using False nb by simp
  next
    case True
    show ?thesis
    proof (cases "b = LF \<or> b = CR")
      case brk: True
      from qpWriteByte_break[OF Cons.prems brk]
      have i: "qpInv (qpWriteByte b w) (t @ (if qpCr w \<and> b = LF then [] else CRLF))"
        and c: "qpCr (qpWriteByte b w) = (b = CR)"
        by simp_all
      from Cons.IH[OF i] c show ?thesis
        using True brk by (auto simp: CRLF_def)
    next
      case lit: False
      then have nb: "b \<noteq> LF" "b \<noteq> CR" by simp_all
      from qpWriteByte_literal[OF Cons.prems nb qpSimple_lit[OF True nb]]
      have i: "qpInv (qpWriteByte b w) (t @ [b])" and c: "qpCr (qpWriteByte b w) = False"
        by simp_all
      from Cons.IH[OF i] c show ?thesis
        using True nb by simp
    qed
  qed
qed

lemma map_option_append_Nil: "map_option ((@) []) x = x"
  by (cases x) simp_all

lemma qpInv_new: "qpInv qpNewWriter []"
  by (simp add: qpInv_def qpInv0_def qpNewWriter_def map_option_append_Nil)

lemma qp_roundtrip: "qpDecode (qpEncode body) = Some (qpText False body)"
proof -
  have "qpInv (qpWrite body qpNewWriter) (qpText False body)"
    using qpWrite_inv[OF qpInv_new, of body] by (simp add: qpNewWriter_def)
  from checkLastByte_inv[OF this]
  have i: "qpInv0 (qpOut (checkLastByte (qpWrite body qpNewWriter)))
             (qpLine (checkLastByte (qpWrite body qpNewWriter))) (qpText False body)"
    and n: "\<not> endsWs (qpLine (checkLastByte (qpWrite body qpNewWriter)))"
    by (simp_all add: qpInv_def)
  from i n have "qpDecode (qpOut (checkLastByte (qpWrite body qpNewWriter))
                   @ qpLine (checkLastByte (qpWrite body qpNewWriter)) @ [])
                 = map_option ((@) (qpText False body)) (qpDecode [])"
    unfolding qpInv0_def by blast
  then show ?thesis
    by (simp add: qpEncode_def qpClose_def qpFlush_def)
qed

lemma crlfOnly_qpText: "crlfOnly body \<Longrightarrow> qpText cr body = body"
proof (induction body arbitrary: cr rule: crlfOnly.induct)
  case 1
  then show ?case by simp
next
  case (2 c cs)
  show ?case
  proof (cases "c = CR")
    case True
    with "2.prems" obtain ds where cs: "cs = LF # ds" and d: "crlfOnly ds"
      by (auto split: list.splits)
    from "2.IH"(1)[OF True cs d] have "qpText False ds = ds" .
    then show ?thesis
      using True cs by (simp add: CRLF_def)
  next
    case False
    with "2.prems" have n: "c \<noteq> LF" and r: "crlfOnly cs"
      by simp_all
    from "2.IH"(2)[OF False r] have "\<And>cr. qpText cr cs = cs" .
    then show ?thesis
      using False n by simp
  qed
qed

section \<open>The layout of the message\<close>

text \<open>
  Claim C3, as the code has it. For every body text and every sequence of attachments
  (each with its own buffer), the buffer that \<open>SendEmail\<close> has built when it turns to
  the mail server begins with the header block, followed by one text/plain part in
  quoted-printable form and then one part per attachment, in the order supplied, each
  part introduced by a delimiter line with the boundary. The content of the body part
  decodes to the body text with its line breaks rewritten (\<open>qpText\<close>), which is the
  body text itself when all its line breaks are CRLF. Each attachment part names the
  file name as supplied and holds the base64 text of the buffer's unread bytes, in one
  unbroken line, which decodes to those bytes.
\<close>

theorem message_layout_and_decoding:
  assumes "list_all2 (\<lambda>a payload. \<exists>p. fileBuf a = Some p \<and> h p = Some payload) as ps"
    and "distinct (map fileBuf as)"
  shows "(\<exists>w' h'. buildMessage rnd ks from to subject body as h = (Done, w', h')
            \<and> prefix (headerBlock ks from to subject (randomBoundary rnd)
                       @ bodyPart (randomBoundary rnd) body
                       @ concat (map2 (\<lambda>a. attachmentPart (randomBoundary rnd) (fileName a) (mimeType a))
                                   as ps))
                 (mpBuf w'))
       \<and> (\<exists>hdr. bodyPart (randomBoundary rnd) body = hdr @ qpEncode body)
       \<and> qpDecode (qpEncode body) = Some (qpText False body)
       \<and> (crlfOnly body \<longrightarrow> qpText False body = body)
       \<and> (\<forall>fName mType payload.
             \<exists>hdr. attachmentPart (randomBoundary rnd) fName mType payload = hdr @ base64Encode payload
                  \<and> sublist (''filename=\"'' @ fName @ ''\"'') hdr)
       \<and> (\<forall>payload. base64Decode (base64Encode payload) = Some payload
                    \<and> CR \<notin> set (base64Encode payload) \<and> LF \<notin> set (base64Encode payload))"
proof (intro conjI allI impI)
  show "\<exists>w' h'. buildMessage rnd ks from to subject body as h = (Done, w', h')
            \<and> prefix (headerBlock ks from to subject (randomBoundary rnd)
                       @ bodyPart (randomBoundary rnd) body
                       @ concat (map2 (\<lambda>a. attachmentPart (randomBoundary rnd) (fileName a) (mimeType a))
                                   as ps))
                 (mpBuf w')"
    by (simp add: buildMessage_eq[OF assms])
next
  show "\<exists>hdr. bodyPart (randomBoundary rnd) body = hdr @ qpEncode body"
    unfolding bodyPart_def by (metis append.assoc)
next
  show "qpDecode (qpEncode body) = Some (qpText False body)"
    by (rule qp_roundtrip)
next
  assume "crlfOnly body"
  then show "qpText False body = body"
    by (rule crlfOnly_qpText)
next
  fix fName mType payload
  let ?d = "''Content-Disposition: attachment; ''"
  let ?t = "CRLF @ ''Content-Transfer-Encoding: base64'' @ CRLF @ ''Content-Type: '' @ mType @ CRLF @ CRLF"
  have "attachmentPart (randomBoundary rnd) fName mType payload
          = ((CRLF @ ''--'' @ randomBoundary rnd @ CRLF @ ?d) @ (''filename=\"'' @ fName @ ''\"'') @ ?t)
            @ base64Encode payload"
    by (simp add: attachmentPart_def)
  moreover have "sublist (''filename=\"'' @ fName @ ''\"'')
                   ((CRLF @ ''--'' @ randomBoundary rnd @ CRLF @ ?d) @ (''filename=\"'' @ fName @ ''\"'') @ ?t)"
    by (rule sublist_appendI)
  ultimately show "\<exists>hdr. attachmentPart (randomBoundary rnd) fName mType payload = hdr @ base64Encode payload
                  \<and> sublist (''filename=\"'' @ fName @ ''\"'') hdr"
    by blast
next
  fix payload
  show "base64Decode (base64Encode payload) = Some payload"
    by (rule base64_roundtrip)
  have "CR \<notin> insert (CHR ''='') (set encodeStd)" "LF \<notin> insert (CHR ''='') (set encodeStd)"
    by (simp_all add: encodeStd_def CR_def LF_def)
  then show "CR \<notin> set (base64Encode payload)" "LF \<notin> set (base64Encode payload)"
    using set_base64Encode[of payload] by blast+
qed

theorem message_layout_and_decoding_witness:
  "list_all2 (\<lambda>a payload. \<exists>p. fileBuf a = Some p \<and> heap exAttWorld p = Some payload)
     [exAttachment] [''PK'']
   \<and> crlfOnly ''CONTENT''
   \<and> qpDecode (qpEncode ''CONTENT'') = Some ''CONTENT''
   \<and> base64Decode (base64Encode ''PK'') = Some ''PK''
   \<and> (\<exists>w' h'. buildMessage exZeroRnd (mapOrder exEnv 0) ''sender@example.com'' ''first@example.com''
                 ''SUBJECT'' ''CONTENT'' [exAttachment] (heap exAttWorld) = (Done, w', h')
            \<and> prefix (headerBlock (mapOrder exEnv 0) ''sender@example.com'' ''first@example.com''
                         ''SUBJECT'' (randomBoundary exZeroRnd)
                       @ bodyPart (randomBoundary exZeroRnd) ''CONTENT''
                       @ concat (map2 (\<lambda>a. attachmentPart (randomBoundary exZeroRnd) (fileName a) (mimeType a))
                                   [exAttachment] [''PK'']))
                 (mpBuf w'))"
proof -
  have a: "list_all2 (\<lambda>a payload. \<exists>p. fileBuf a = Some p \<and> heap exAttWorld p = Some payload)
             [exAttachment] [''PK'']"
    by (simp add: exAttachment_def exAttWorld_def)
  have d: "distinct (map fileBuf [exAttachment])"
    by simp
  have c: "crlfOnly ''CONTENT''"
    by (simp add: CR_def LF_def)
  note T = message_layout_and_decoding[OF a d, of exZeroRnd "mapOrder exEnv 0" "''sender@example.com''"
      "''first@example.com''" "''SUBJECT''" "''CONTENT''"]
  have q: "qpDecode (qpEncode ''CONTENT'') = Some (qpText False ''CONTENT'')"
    by (rule T[THEN conjunct2, THEN conjunct2, THEN conjunct1])
  have "qpText False ''CONTENT'' = ''CONTENT''"
    by (rule T[THEN conjunct2, THEN conjunct2, THEN conjunct2, THEN conjunct1, THEN mp, OF c])
  with q have q': "qpDecode (qpEncode ''CONTENT'') = Some ''CONTENT''"
    by (simp only:)
  have b: "base64Decode (base64Encode ''PK'') = Some ''PK''"
    using T[THEN conjunct2, THEN conjunct2, THEN conjunct2, THEN conjunct2, THEN conjunct2]
    by blast
  show ?thesis
    by (intro conjI a c q' b T[THEN conjunct1])
qed

text \<open>
  Claim C3 as stated fails. The body \<^verbatim>\<open>a\<close>, line feed, \<^verbatim>\<open>b\<close> is written as \<^verbatim>\<open>a\<close>, CRLF,
  \<^verbatim>\<open>b\<close>, so the decoded text of the body part differs from the body text; and the
  base64 text of a payload of 58 bytes is one line of 80 characters, more than the 76
  that the MIME standard allows in a line of base64 text.
\<close>

theorem body_line_breaks_rewritten:
  "qpDecode (qpEncode [CHR ''a'', LF, CHR ''b'']) = Some [CHR ''a'', CR, LF, CHR ''b'']
   \<and> qpDecode (qpEncode [CHR ''a'', LF, CHR ''b'']) \<noteq> Some [CHR ''a'', LF, CHR ''b'']
   \<and> length (base64Encode (replicate 58 (CHR ''x''))) = 80
   \<and> LF \<notin> set (base64Encode (replicate 58 (CHR ''x'')))"
proof -
  have q: "qpDecode (qpEncode [CHR ''a'', LF, CHR ''b'']) = Some [CHR ''a'', CR, LF, CHR ''b'']"
    by (simp add: qp_roundtrip CRLF_def qpSimple_def CR_def LF_def)
  have l: "length (base64Encode (replicate 58 (CHR ''x''))) = 80"
    by code_simp
  have "LF \<notin> insert (CHR ''='') (set encodeStd)"
    by (simp add: encodeStd_def LF_def)
  then have n: "LF \<notin> set (base64Encode (replicate 58 (CHR ''x'')))"
    using set_base64Encode[of "replicate 58 (CHR ''x'')"] by blast
  have "[CHR ''a'', CR, LF, CHR ''b''] \<noteq> [CHR ''a'', LF, CHR ''b'']"
    by (simp add: CR_def LF_def)
  with q l n show ?thesis
    by (simp only: option.inject simp_thms)
qed

text \<open>
  The end of the message. The closing delimiter is what \<open>mpClose\<close> appends to the
  buffer; \<open>SendEmail\<close> defers that call to its return, so the buffer is written to the
  server before it. In the example call the bytes written to the server are the
  header block, the body part and the attachment part, and the closing delimiter
  does not occur in them.
\<close>

lemma ex_sent_message:
  "SendEmail exEnv ''smtp.example.com'' ''465'' ''mailer'' ''secret''
      ''sender@example.com'' ''first@example.com'' ''SUBJECT'' ''CONTENT'' [exAttachment] exAttWorld
   = (Done,
      exAttWorld\<lparr>events :=
          [EvPrepare ''first@example.com'',
           EvData ''smtp.example.com:465'' ''sender@example.com'' ''first@example.com''
             (headerBlock (mapOrder exEnv 0) ''sender@example.com'' ''first@example.com'' ''SUBJECT''
                (randomBoundary (randRead exEnv 0))
              @ bodyPart (randomBoundary (randRead exEnv 0)) ''CONTENT''
              @ attachmentPart (randomBoundary (randRead exEnv 0)) ''01.xlsx'' xlsxMime ''PK'')],
        prepared := 1, heap := [0 \<mapsto> []]\<rparr>)"
proof -
  have a: "list_all2 (\<lambda>a payload. \<exists>p. fileBuf a = Some p \<and> heap exAttWorld p = Some payload)
             [exAttachment] [''PK'']"
    by (simp add: exAttachment_def exAttWorld_def)
  have d: "distinct (map fileBuf [exAttachment])"
    by simp
  have s: "\<forall>stage. smtp exEnv (''smtp.example.com'' @ '':'' @ ''465'') ''first@example.com'' stage = None"
    by (simp add: exEnv_def)
  have h: "drained [exAttachment] (heap exAttWorld) = [0 \<mapsto> []]"
    by (auto simp: drained_def exAttachment_def exAttWorld_def fun_eq_iff)
  show ?thesis
    unfolding SendEmail_eq[OF a d s] h
    by (simp add: exAttachment_def exAttWorld_def)
qed

lemma mpClose_buf:
  "mpBuf (mpClose w) = mpBuf w @ CRLF @ ''--'' @ mpBoundary w @ ''--'' @ CRLF"
  by (simp add: mpClose_def bufWrite_def)

lemma ex_no_closing_delimiter:
  "\<not> sublist (''--'' @ randomBoundary (randRead exEnv 0) @ ''--'')
       (headerBlock (mapOrder exEnv 0) ''sender@example.com'' ''first@example.com'' ''SUBJECT''
                (randomBoundary (randRead exEnv 0))
              @ bodyPart (randomBoundary (randRead exEnv 0)) ''CONTENT''
              @ attachmentPart (randomBoundary (randRead exEnv 0)) ''01.xlsx'' xlsxMime ''PK'')"
  by code_simp

end
